theory Spec2Isabelle
  imports Complex_Main
begin

section \<open>Floating-point values\<close>

text \<open>
  The arrays of \<^verbatim>\<open>nuance.py\<close> hold IEEE floats. A float is modelled as a real number or one
  of the three special values; arithmetic on finite values is exact (rounding, overflow and
  signed zeros are not modelled), and the special values follow the IEEE rules, so that
  \<^verbatim>\<open>np.isfinite\<close>, comparisons with NaN and \<^verbatim>\<open>np.argmax\<close> behave as in the program.
  Equality of two modelled floats is identity of the stored value (NaN included); the
  comparisons of the program are \<open>flt\<close> and \<open>fle\<close>.
\<close>

datatype fl = Fin real | PInf | NInf | NaN

type_synonym vec = "fl list"
type_synonym mat = "fl list list"

definition isfinite :: "fl \<Rightarrow> bool" where
  "isfinite x = (case x of Fin _ \<Rightarrow> True | _ \<Rightarrow> False)"

definition isnan :: "fl \<Rightarrow> bool" where
  "isnan x = (case x of NaN \<Rightarrow> True | _ \<Rightarrow> False)"

text \<open>\<^verbatim>\<open>a < b\<close> and \<^verbatim>\<open>a <= b\<close>: false as soon as one side is NaN.\<close>

fun flt :: "fl \<Rightarrow> fl \<Rightarrow> bool" where
  "flt (Fin a) (Fin b) = (a < b)"
| "flt (Fin a) PInf = True"
| "flt (Fin a) NInf = False"
| "flt (Fin a) NaN = False"
| "flt PInf b = False"
| "flt NInf (Fin b) = True"
| "flt NInf PInf = True"
| "flt NInf NInf = False"
| "flt NInf NaN = False"
| "flt NaN b = False"

fun fle :: "fl \<Rightarrow> fl \<Rightarrow> bool" where
  "fle (Fin a) (Fin b) = (a \<le> b)"
| "fle (Fin a) PInf = True"
| "fle (Fin a) NInf = False"
| "fle (Fin a) NaN = False"
| "fle PInf PInf = True"
| "fle PInf (Fin b) = False"
| "fle PInf NInf = False"
| "fle PInf NaN = False"
| "fle NInf NaN = False"
| "fle NInf (Fin b) = True"
| "fle NInf PInf = True"
| "fle NInf NInf = True"
| "fle NaN b = False"

fun fneg :: "fl \<Rightarrow> fl" where
  "fneg (Fin a) = Fin (- a)"
| "fneg PInf = NInf"
| "fneg NInf = PInf"
| "fneg NaN = NaN"

fun fabs :: "fl \<Rightarrow> fl" where
  "fabs (Fin a) = Fin \<bar>a\<bar>"
| "fabs PInf = PInf"
| "fabs NInf = PInf"
| "fabs NaN = NaN"

fun fadd :: "fl \<Rightarrow> fl \<Rightarrow> fl" where
  "fadd (Fin a) (Fin b) = Fin (a + b)"
| "fadd (Fin a) PInf = PInf"
| "fadd (Fin a) NInf = NInf"
| "fadd PInf (Fin b) = PInf"
| "fadd PInf PInf = PInf"
| "fadd PInf NInf = NaN"
| "fadd NInf (Fin b) = NInf"
| "fadd NInf NInf = NInf"
| "fadd NInf PInf = NaN"
| "fadd NaN b = NaN"
| "fadd a NaN = NaN"

definition fsub :: "fl \<Rightarrow> fl \<Rightarrow> fl" where
  "fsub a b = fadd a (fneg b)"

text \<open>The sign of a value (\<open>0\<close> for zero and for NaN), and the infinity of a given sign;
  a product or quotient of sign \<open>0\<close> that involves an infinity is NaN.\<close>

fun fsign :: "fl \<Rightarrow> int" where
  "fsign (Fin a) = (if a < 0 then - 1 else if a = 0 then 0 else 1)"
| "fsign PInf = 1"
| "fsign NInf = - 1"
| "fsign NaN = 0"

definition inf_of_sign :: "int \<Rightarrow> fl" where
  "inf_of_sign s = (if s = 0 then NaN else if 0 < s then PInf else NInf)"

fun fmul :: "fl \<Rightarrow> fl \<Rightarrow> fl" where
  "fmul (Fin a) (Fin b) = Fin (a * b)"
| "fmul NaN b = NaN"
| "fmul a NaN = NaN"
| "fmul a b = inf_of_sign (fsign a * fsign b)"

fun fdiv :: "fl \<Rightarrow> fl \<Rightarrow> fl" where
  "fdiv (Fin a) (Fin b) = (if b = 0 then inf_of_sign (fsign (Fin a)) else Fin (a / b))"
| "fdiv NaN b = NaN"
| "fdiv a NaN = NaN"
| "fdiv (Fin a) b = Fin 0"
| "fdiv a (Fin b) = inf_of_sign (fsign a * (if b < 0 then - 1 else 1))"
| "fdiv a b = NaN"

fun fsqrt :: "fl \<Rightarrow> fl" where
  "fsqrt (Fin a) = (if a < 0 then NaN else Fin (sqrt a))"
| "fsqrt PInf = PInf"
| "fsqrt NInf = NaN"
| "fsqrt NaN = NaN"

section \<open>Errors, references and small array helpers\<close>

text \<open>The exceptions the modelled code can raise. \<open>LibraryError\<close> stands for an exception of
  an external library call; \<open>NoSuchObject\<close> is the lookup of a reference that was never
  allocated, which a running Python program cannot hold.\<close>

datatype pyerr = TypeError | AttributeError | IndexError | ValueError | LibraryError | NoSuchObject

type_synonym addr = nat

datatype pyval = PyNone | RefSearchData addr | RefNuance addr

definition ebind :: "pyerr + 'a \<Rightarrow> ('a \<Rightarrow> pyerr + 'b) \<Rightarrow> pyerr + 'b" where
  "ebind m f = (case m of Inl e \<Rightarrow> Inl e | Inr x \<Rightarrow> f x)"

fun mapM :: "('a \<Rightarrow> pyerr + 'b) \<Rightarrow> 'a list \<Rightarrow> pyerr + 'b list" where
  "mapM f [] = Inr []"
| "mapM f (x # xs) = ebind (f x) (\<lambda>y. ebind (mapM f xs) (\<lambda>ys. Inr (y # ys)))"

text \<open>Both loops of the file have the form
  \<^verbatim>\<open>for i, x in enumerate(xs): a[i], b[i], c[i] = body(x)\<close>
  on three preallocated arrays; an exception in the body ends the loop.\<close>

fun enumerate_loop ::
  "('x \<Rightarrow> pyerr + ('a \<times> 'b \<times> 'c)) \<Rightarrow> nat \<Rightarrow> 'x list \<Rightarrow> 'a list \<times> 'b list \<times> 'c list
     \<Rightarrow> pyerr + ('a list \<times> 'b list \<times> 'c list)" where
  "enumerate_loop body i [] arrays = Inr arrays"
| "enumerate_loop body i (x # xs) (as, bs, cs) =
     (case body x of
        Inl e \<Rightarrow> Inl e
      | Inr (a, b, c) \<Rightarrow> enumerate_loop body (Suc i) xs (as[i := a], bs[i := b], cs[i := c]))"

definition ones_like :: "vec \<Rightarrow> vec" where
  "ones_like t = map (\<lambda>_. Fin 1) t"

definition zeros_like :: "vec \<Rightarrow> vec" where
  "zeros_like t = map (\<lambda>_. Fin 0) t"

definition atleast_2d :: "vec \<Rightarrow> mat" where
  "atleast_2d v = [v]"

definition zeros2 :: "nat \<Rightarrow> nat \<Rightarrow> mat" where
  "zeros2 r c = replicate r (replicate c (Fin 0))"

definition dot :: "vec \<Rightarrow> vec \<Rightarrow> fl" where
  "dot xs ys = foldl fadd (Fin 0) (map2 fmul xs ys)"

definition matvec :: "mat \<Rightarrow> vec \<Rightarrow> vec" where
  "matvec A x = map (\<lambda>row. dot row x) A"

definition vecmat :: "vec \<Rightarrow> mat \<Rightarrow> vec" where
  "vecmat x A = map (\<lambda>col. dot x col) (transpose A)"

definition matmul :: "mat \<Rightarrow> mat \<Rightarrow> mat" where
  "matmul A B = map (\<lambda>row. vecmat row B) A"

definition vsub :: "vec \<Rightarrow> vec \<Rightarrow> vec" where
  "vsub xs ys = map2 fsub xs ys"

text \<open>Indexing a JAX array with a non-negative index: an index past the end is clamped to the
  last element; only an empty axis has nothing to return.\<close>

definition jnp_index :: "'a list \<Rightarrow> nat \<Rightarrow> pyerr + 'a" where
  "jnp_index xs i = (if xs = [] then Inl IndexError else Inr (xs ! min i (length xs - 1)))"

text \<open>Indexing with \<^verbatim>\<open>-1\<close>: the last element.\<close>

definition index_last :: "'a list \<Rightarrow> pyerr + 'a" where
  "index_last xs = (if xs = [] then Inl IndexError else Inr (last xs))"

text \<open>Indexing a NumPy array with a non-negative index raises past the end.\<close>

definition np_index :: "'a list \<Rightarrow> nat \<Rightarrow> pyerr + 'a" where
  "np_index xs i = (if i < length xs then Inr (xs ! i) else Inl IndexError)"

text \<open>\<^verbatim>\<open>a[mask]\<close> with a boolean mask along the first axis: the mask must have the length of
  that axis; the selected entries keep their order.\<close>

definition bool_index :: "'a list \<Rightarrow> bool list \<Rightarrow> pyerr + 'a list" where
  "bool_index xs msk =
     (if length msk = length xs then Inr (map fst (filter snd (zip xs msk))) else Inl IndexError)"

section \<open>Data model\<close>

text \<open>The \<^verbatim>\<open>error\<close> argument is \<^verbatim>\<open>None\<close>, a scalar or an array; \<open>noise option\<close> has
  \<open>None\<close> for Python's \<^verbatim>\<open>None\<close>.\<close>

datatype noise = ScalarNoise fl | ArrayNoise vec

datatype kernel = Constant fl | Kernel nat

text \<open>What the session uses of a \<^verbatim>\<open>tinygp.GaussianProcess\<close>: the whitening solve and the
  log-likelihood of a residual.\<close>

record GaussianProcess =
  solve_triangular :: "vec \<Rightarrow> vec"
  log_probability :: "vec \<Rightarrow> fl"

text \<open>The attributes of \<^verbatim>\<open>SearchData\<close> that \<^verbatim>\<open>nuance.py\<close> reads and writes.\<close>

record SearchData =
  t0s :: vec
  Ds :: vec
  ll :: mat
  z :: mat
  vz :: mat
  ll0 :: fl
  periods :: "vec option"
  Q_snr :: "vec option"
  Q_ll :: "vec option"
  Q_params :: "mat option"
  llv :: "mat option"
  llc :: "mat option"

text \<open>A session. \<open>eval_m\<close> is the closure \<^verbatim>\<open>_compute_L\<close> stores on the object; it is absent
  until \<^verbatim>\<open>_compute_L\<close> has run. \<open>search_data\<close> is a reference into the store.\<close>

record Nuance =
  time :: vec
  flux :: vec
  error :: "noise option"
  kernel :: "kernel option"
  mean :: fl
  X :: mat
  gp :: GaussianProcess
  eval_m :: "(vec \<Rightarrow> fl \<times> vec \<times> mat) option"
  search_data :: "addr option"

text \<open>The store of objects: a reference is an index, allocation appends.\<close>

record heap =
  sessions :: "Nuance list"
  sdatas :: "SearchData list"

definition get_session :: "heap \<Rightarrow> addr \<Rightarrow> pyerr + Nuance" where
  "get_session h a = (if a < length (sessions h) then Inr (sessions h ! a) else Inl NoSuchObject)"

definition get_sdata :: "heap \<Rightarrow> addr \<Rightarrow> pyerr + SearchData" where
  "get_sdata h a = (if a < length (sdatas h) then Inr (sdatas h ! a) else Inl NoSuchObject)"

text \<open>Reading \<^verbatim>\<open>self.search_data\<close> and then an attribute or method of it: before a linear
  search the attribute is \<^verbatim>\<open>None\<close>, which has none.\<close>

definition get_search_data :: "heap \<Rightarrow> Nuance \<Rightarrow> pyerr + SearchData" where
  "get_search_data h nu =
     (case search_data nu of None \<Rightarrow> Inl AttributeError | Some a \<Rightarrow> get_sdata h a)"

text \<open>The search surface a session holds in a given store.\<close>

definition stored_surface :: "heap \<Rightarrow> addr \<Rightarrow> pyerr + SearchData" where
  "stored_surface h self = ebind (get_session h self) (get_search_data h)"

text \<open>The external libraries (tinygp, \<^verbatim>\<open>jnp.linalg\<close>) and the modules of the repository
  that are not part of the verified file (\<^verbatim>\<open>utils\<close>, \<^verbatim>\<open>search_data\<close>) are parameters.\<close>

record env =
  tinygp_GaussianProcess :: "kernel \<Rightarrow> vec \<Rightarrow> noise \<Rightarrow> fl \<Rightarrow> pyerr + GaussianProcess"
  lstsq :: "mat \<Rightarrow> vec \<Rightarrow> vec"
  linalg_inv :: "mat \<Rightarrow> mat"
  single_transit :: "vec \<Rightarrow> fl \<Rightarrow> fl \<Rightarrow> vec"
  transit :: "vec \<Rightarrow> fl \<Rightarrow> fl \<Rightarrow> fl \<Rightarrow> fl option \<Rightarrow> vec"
  phase :: "vec \<Rightarrow> fl \<Rightarrow> fl \<Rightarrow> vec"
  fold_ll :: "SearchData \<Rightarrow> fl \<Rightarrow> vec \<times> mat \<times> mat"

section \<open>Construction of a session\<close>

text \<open>\<^verbatim>\<open>error**2\<close>: \<^verbatim>\<open>None\<close> has no power operator.\<close>

definition py_square :: "noise option \<Rightarrow> pyerr + noise" where
  "py_square e =
     (case e of
        None \<Rightarrow> Inl TypeError
      | Some (ScalarNoise x) \<Rightarrow> Inr (ScalarNoise (fmul x x))
      | Some (ArrayNoise xs) \<Rightarrow> Inr (ArrayNoise (map (\<lambda>x. fmul x x) xs)))"

text \<open>\<^verbatim>\<open>solve_triangular\<close> of a matrix solves column by column.\<close>

definition solve_triangular_cols :: "GaussianProcess \<Rightarrow> mat \<Rightarrow> mat" where
  "solve_triangular_cols g M = transpose (map (solve_triangular g) (transpose M))"

definition hstack_col :: "mat \<Rightarrow> vec \<Rightarrow> mat" where
  "hstack_col M c = map2 (\<lambda>row x. row @ [x]) M c"

definition compute_L :: "env \<Rightarrow> Nuance \<Rightarrow> Nuance" where
  "compute_L E nu =
     (let Liy = solve_triangular (gp nu) (flux nu);
          LiX = solve_triangular_cols (gp nu) (transpose (X nu))
      in nu\<lparr>eval_m := Some (\<lambda>m.
           let Xm = X nu @ [m];
               Lim = solve_triangular (gp nu) m;
               LiXm = hstack_col LiX Lim;
               LiXmT = transpose LiXm;
               LimX2 = matmul LiXmT LiXm;
               w = lstsq E LimX2 (matvec LiXmT Liy);
               v = linalg_inv E LimX2
           in (log_probability (gp nu) (vsub (flux nu) (vecmat w Xm)), w, v))\<rparr>)"

definition Nuance_init ::
  "env \<Rightarrow> heap \<Rightarrow> vec \<Rightarrow> vec \<Rightarrow> noise option \<Rightarrow> kernel option \<Rightarrow> mat option \<Rightarrow> bool \<Rightarrow> fl
     \<Rightarrow> pyerr + (addr \<times> heap)" where
  "Nuance_init E h time' flux' error' kernel' X' compute mean' =
     (let Xd = (case X' of None \<Rightarrow> atleast_2d (ones_like time') | Some M \<Rightarrow> M);
          k = (case kernel' of None \<Rightarrow> Constant (Fin 0) | Some k' \<Rightarrow> k')
      in ebind (py_square error') (\<lambda>diag.
         ebind (tinygp_GaussianProcess E k time' diag mean') (\<lambda>g.
           let nu0 = \<lparr>time = time', flux = flux', error = error', kernel = kernel',
                      mean = mean', X = Xd, gp = g, eval_m = None, search_data = None\<rparr>;
               nu = (if compute then compute_L E nu0 else nu0)
           in Inr (length (sessions h), h\<lparr>sessions := sessions h @ [nu]\<rparr>))))"

section \<open>Linear search\<close>

text \<open>Reading \<^verbatim>\<open>self.eval_m\<close> raises when \<^verbatim>\<open>_compute_L\<close> never ran.\<close>

definition get_eval_m :: "Nuance \<Rightarrow> pyerr + (vec \<Rightarrow> fl \<times> vec \<times> mat)" where
  "get_eval_m nu = (case eval_m nu of None \<Rightarrow> Inl AttributeError | Some f \<Rightarrow> Inr f)"

text \<open>The property \<^verbatim>\<open>ll0\<close>: the log-likelihood of the all-zero regressor.\<close>

definition prop_ll0 :: "Nuance \<Rightarrow> pyerr + fl" where
  "prop_ll0 nu = ebind (get_eval_m nu) (\<lambda>f. Inr (fst (f (zeros_like (time nu)))))"

text \<open>The closure \<^verbatim>\<open>eval_transit\<close> of \<^verbatim>\<open>linear_search\<close>: depth \<^verbatim>\<open>w[n]\<close>, variance
  \<^verbatim>\<open>v[n, n]\<close> and log-likelihood of one cell, with \<^verbatim>\<open>n = len(self.X)\<close>.\<close>

definition eval_transit :: "env \<Rightarrow> Nuance \<Rightarrow> fl \<Rightarrow> fl \<Rightarrow> pyerr + (fl \<times> fl \<times> fl)" where
  "eval_transit E nu t0 D =
     (let n = length (X nu);
          m = single_transit E (time nu) t0 D
      in ebind (get_eval_m nu) (\<lambda>f.
         case f m of (l, w, v) \<Rightarrow>
           ebind (jnp_index w n) (\<lambda>wn.
           ebind (jnp_index v n) (\<lambda>row.
           ebind (jnp_index row n) (\<lambda>vnn. Inr (wn, vnn, l))))))"

text \<open>\<^verbatim>\<open>jax.vmap(eval_transit, in_axes=(None, 0))\<close>: one epoch against every duration,
  returned as three vectors.\<close>

definition vmap_eval_transit :: "env \<Rightarrow> Nuance \<Rightarrow> fl \<Rightarrow> vec \<Rightarrow> pyerr + (vec \<times> vec \<times> vec)" where
  "vmap_eval_transit E nu t0 Ds' =
     ebind (mapM (eval_transit E nu t0) Ds') (\<lambda>cells.
       Inr (map fst cells, map (\<lambda>c. fst (snd c)) cells, map (\<lambda>c. snd (snd c)) cells))"

text \<open>\<^verbatim>\<open>ll[depths < 0] = ll0\<close>.\<close>

definition sign_policy :: "mat \<Rightarrow> mat \<Rightarrow> fl \<Rightarrow> mat" where
  "sign_policy depths lls l0 =
     map2 (\<lambda>drow lrow. map2 (\<lambda>d l. if flt d (Fin 0) then l0 else l) drow lrow) depths lls"

text \<open>\<^verbatim>\<open>vars[~np.isfinite(vars)] = 1e25\<close>.\<close>

definition sanitize :: "mat \<Rightarrow> mat" where
  "sanitize vars = map (map (\<lambda>v. if \<not> isfinite v then Fin (10 ^ 25) else v)) vars"

text \<open>The constructor call \<^verbatim>\<open>SearchData(t0s=..., Ds=..., ll=..., z=..., vz=..., ll0=...)\<close>.

  Modelled from the spec: the class \<^verbatim>\<open>SearchData\<close> lives in \<^verbatim>\<open>search_data.py\<close>, which is
  not part of the verified file; by section 6 of the spec it stores the search surface it is
  given. The attributes the call does not pass start as \<^verbatim>\<open>None\<close>.\<close>

definition SearchData_new :: "vec \<Rightarrow> vec \<Rightarrow> mat \<Rightarrow> mat \<Rightarrow> mat \<Rightarrow> fl \<Rightarrow> SearchData" where
  "SearchData_new t0s' Ds' ll' z' vz' ll0' =
     \<lparr>t0s = t0s', Ds = Ds', ll = ll', z = z', vz = vz', ll0 = ll0',
      periods = None, Q_snr = None, Q_ll = None, Q_params = None, llv = None, llc = None\<rparr>"

text \<open>The progress bar only wraps the iteration and is left out. The loop over the epochs
  overwrites row \<open>i\<close> of the three grids with the result for epoch \<open>i\<close>.\<close>

definition linear_search ::
  "env \<Rightarrow> heap \<Rightarrow> addr \<Rightarrow> vec \<Rightarrow> vec \<Rightarrow> bool \<Rightarrow> pyerr + (pyval \<times> heap)" where
  "linear_search E h self t0s' Ds' positive =
     ebind (get_session h self) (\<lambda>nu.
       let zs = zeros2 (length t0s') (length Ds')
       in ebind (enumerate_loop (\<lambda>t0. vmap_eval_transit E nu t0 Ds') 0 t0s' (zs, zs, zs))
            (\<lambda>(depths, vars, ll1).
          ebind (if positive
                 then ebind (get_eval_m nu) (\<lambda>f.
                        Inr (sign_policy depths ll1 (fst (f (zeros_like (time nu))))))
                 else Inr ll1) (\<lambda>ll2.
          let vars2 = sanitize vars
          in ebind (prop_ll0 nu) (\<lambda>l0.
             let sd = SearchData_new t0s' Ds' ll2 depths vars2 l0;
                 a = length (sdatas h)
             in Inr (PyNone,
                     h\<lparr>sdatas := sdatas h @ [sd],
                       sessions := (sessions h)[self := nu\<lparr>search_data := Some a\<rparr>]\<rparr>)))))"

section \<open>Direct evaluation: solve, depth and snr\<close>

definition solve :: "env \<Rightarrow> Nuance \<Rightarrow> fl \<Rightarrow> fl \<Rightarrow> fl option \<Rightarrow> pyerr + (vec \<times> mat)" where
  "solve E nu t0 D P =
     (let m = transit E (time nu) t0 D (Fin 1) P
      in ebind (get_eval_m nu) (\<lambda>f. case f m of (l, w, v) \<Rightarrow> Inr (w, v)))"

text \<open>\<^verbatim>\<open>w[-1], np.sqrt(v[-1, -1])\<close>.\<close>

definition depth :: "env \<Rightarrow> Nuance \<Rightarrow> fl \<Rightarrow> fl \<Rightarrow> fl option \<Rightarrow> pyerr + (fl \<times> fl)" where
  "depth E nu t0 D P =
     ebind (solve E nu t0 D P) (\<lambda>(w, v).
     ebind (index_last w) (\<lambda>wl.
     ebind (index_last v) (\<lambda>row.
     ebind (index_last row) (\<lambda>vl. Inr (wl, fsqrt vl)))))"

definition snr :: "env \<Rightarrow> Nuance \<Rightarrow> fl \<Rightarrow> fl \<Rightarrow> fl option \<Rightarrow> pyerr + fl" where
  "snr E nu t0 D P = ebind (depth E nu t0 D P) (\<lambda>(w, dw). Inr (fdiv w dw))"

section \<open>Periodic search\<close>

text \<open>\<^verbatim>\<open>np.argmax\<close> over the flattened array: the first NaN if there is one, else the first
  largest entry; an empty array raises. The loop keeps the running maximum \<open>mp\<close> and its
  index \<open>mi\<close>, and moves on when \<^verbatim>\<open>!(x <= mp)\<close>.\<close>

fun argmax_loop :: "vec \<Rightarrow> nat \<Rightarrow> fl \<Rightarrow> nat \<Rightarrow> nat" where
  "argmax_loop [] i mp mi = mi"
| "argmax_loop (x # xs) i mp mi =
     (if \<not> fle x mp
      then (if isnan x then i else argmax_loop xs (Suc i) x i)
      else argmax_loop xs (Suc i) mp mi)"

definition np_argmax :: "vec \<Rightarrow> pyerr + nat" where
  "np_argmax xs =
     (case xs of
        [] \<Rightarrow> Inl ValueError
      | x # rest \<Rightarrow> Inr (if isnan x then 0 else argmax_loop rest 1 x 0))"

definition shape2 :: "mat \<Rightarrow> nat \<times> nat" where
  "shape2 M = (length M, if M = [] then 0 else length (hd M))"

definition unravel_index :: "nat \<Rightarrow> nat \<times> nat \<Rightarrow> nat \<times> nat" where
  "unravel_index k shp = (k div snd shp, k mod snd shp)"

definition np_index2 :: "mat \<Rightarrow> nat \<Rightarrow> nat \<Rightarrow> pyerr + fl" where
  "np_index2 M i j = ebind (np_index M i) (\<lambda>row. np_index row j)"

definition np_mean :: "vec \<Rightarrow> fl" where
  "np_mean xs = fdiv (foldl fadd (Fin 0) xs) (Fin (real (length xs)))"

text \<open>\<^verbatim>\<open>SearchData.copy()\<close>.

  Modelled from the spec: \<^verbatim>\<open>search_data.py\<close> is not part of the verified file; by section 6
  of the spec the store "supports copy() (deep, independent)": a new object with the same
  contents.\<close>

definition SearchData_copy :: "heap \<Rightarrow> SearchData \<Rightarrow> addr \<times> heap" where
  "SearchData_copy h sd = (length (sdatas h), h\<lparr>sdatas := sdatas h @ [sd]\<rparr>)"

text \<open>The body of the loop over the periods, for one period \<open>P\<close>: the signal-to-noise ratio,
  the excess of the best cell over the mean, and the row \<^verbatim>\<open>(Ti, Dj, P)\<close>.\<close>

definition period_body :: "env \<Rightarrow> Nuance \<Rightarrow> SearchData \<Rightarrow> fl \<Rightarrow> pyerr + (fl \<times> fl \<times> vec)" where
  "period_body E nu sd P =
     (case fold_ll E sd P of (ph, P1, P2) \<Rightarrow>
        ebind (np_argmax (concat P2)) (\<lambda>k.
        case unravel_index k (shape2 P2) of (i, j) \<Rightarrow>
          ebind (np_index ph i) (\<lambda>phi.
          let Ti = fmul phi P
          in ebind (np_index (Ds sd) j) (\<lambda>Dj.
             ebind (snr E nu Ti Dj (Some P)) (\<lambda>s.
             ebind (np_index2 P2 i j) (\<lambda>best.
               Inr (s, fsub best (np_mean (concat P2)), [Ti, Dj, P])))))))"

definition periodic_search :: "env \<Rightarrow> heap \<Rightarrow> addr \<Rightarrow> vec \<Rightarrow> pyerr + (pyval \<times> heap)" where
  "periodic_search E h self periods' =
     ebind (get_session h self) (\<lambda>nu.
     ebind (get_search_data h nu) (\<lambda>sd.
       case SearchData_copy h sd of (a', h1) \<Rightarrow>
         let n = length periods'
         in ebind (enumerate_loop (period_body E nu sd) 0 periods'
                     (replicate n (Fin 0), replicate n (Fin 0), zeros2 n 3))
              (\<lambda>(snrs, max_ll, params).
                Inr (RefSearchData a',
                     h1\<lparr>sdatas := (sdatas h1)[a' := sd\<lparr>periods := Some periods',
                                                       Q_snr := Some snrs,
                                                       Q_ll := Some max_ll,
                                                       Q_params := Some params\<rparr>]\<rparr>))))"

section \<open>Masking\<close>

text \<open>\<^verbatim>\<open>np.abs(ph) > 2 * D\<close>.\<close>

definition far_from_transit :: "vec \<Rightarrow> fl \<Rightarrow> bool list" where
  "far_from_transit ph D = map (\<lambda>p. flt (fmul (Fin 2) D) (fabs p)) ph"

definition mask_nu :: "env \<Rightarrow> heap \<Rightarrow> addr \<Rightarrow> fl \<Rightarrow> fl \<Rightarrow> fl \<Rightarrow> pyerr + (pyval \<times> heap)" where
  "mask_nu E h self t0 D P =
     ebind (get_session h self) (\<lambda>nu.
     ebind (get_search_data h nu) (\<lambda>sd.
       case SearchData_copy h sd of (a', h1) \<Rightarrow>
         let msk = far_from_transit (phase E (t0s sd) t0 P) D
         in ebind (bool_index (t0s sd) msk) (\<lambda>t0s'.
            ebind (bool_index (ll sd) msk) (\<lambda>ll'.
            ebind (bool_index (z sd) msk) (\<lambda>z'.
            ebind (bool_index (vz sd) msk) (\<lambda>vz'.
            let sd1 = sd\<lparr>llv := None, llc := None, periods := None,
                        t0s := t0s', ll := ll', z := z', vz := vz'\<rparr>;
                h2 = h1\<lparr>sdatas := (sdatas h1)[a' := sd1]\<rparr>;
                msk2 = far_from_transit (phase E (time nu) t0 P) D
            in ebind (case error nu of
                        Some (ArrayNoise e) \<Rightarrow>
                          ebind (bool_index e msk2) (\<lambda>e'. Inr (Some (ArrayNoise e')))
                      | other \<Rightarrow> Inr other) (\<lambda>error'.
               ebind (bool_index (time nu) msk2) (\<lambda>time'.
               ebind (bool_index (flux nu) msk2) (\<lambda>flux'.
               ebind (mapM (\<lambda>row. bool_index row msk2) (X nu)) (\<lambda>X'.
               ebind (Nuance_init E h2 time' flux' error' (kernel nu) (Some X') True (Fin 0))
                 (\<lambda>(b, h3).
                   Inr (RefNuance b,
                        h3\<lparr>sessions :=
                             (sessions h3)[b := (sessions h3 ! b)\<lparr>search_data := Some a'\<rparr>]\<rparr>))))))))))))"

text \<open>The claim about masking speaks of the points whose phase distance to the folded
  transit exceeds \<open>2D\<close>. In the claim's words: the positions of a phase array at which the
  absolute phase is larger than twice the duration.\<close>

definition far_indices :: "vec \<Rightarrow> fl \<Rightarrow> nat set" where
  "far_indices ph D = {k. k < length ph \<and> flt (fmul (Fin 2) D) (fabs (ph ! k))}"


section \<open>What a call returns\<close>

text \<open>A call returns a search surface when it ends without an exception and its value is a
  reference to a \<^verbatim>\<open>SearchData\<close> object of the resulting store.\<close>

definition returns_surface :: "pyerr + (pyval \<times> heap) \<Rightarrow> bool" where
  "returns_surface res =
     (case res of
        Inl e \<Rightarrow> False
      | Inr (v, h') \<Rightarrow> (case v of RefSearchData a \<Rightarrow> a < length (sdatas h') | _ \<Rightarrow> False))"

section \<open>A small session for concrete runs\<close>

text \<open>Three observations at times 0, 1 and 2 with a constant design matrix. The template is a
  box of half-width \<open>D\<close> around \<open>t0\<close> (repeated one period later when a period is given), and
  the evaluator is a table on the templates: a negative depth with a non-finite variance, a
  positive depth with variance 4, a negative depth with variance 0, a periodic template, and
  (for every other regressor, the all-zero one included) a degenerate fit.\<close>

definition ex_gp :: GaussianProcess where
  "ex_gp = \<lparr>solve_triangular = (\<lambda>y. y), log_probability = (\<lambda>r. fneg (dot r r))\<rparr>"

definition ex_box :: "vec \<Rightarrow> fl \<Rightarrow> fl \<Rightarrow> fl \<Rightarrow> fl option \<Rightarrow> vec" where
  "ex_box t t0 D d P =
     map (\<lambda>x. if flt (fabs (fsub x t0)) D then d
              else (case P of
                      None \<Rightarrow> Fin 0
                    | Some p \<Rightarrow> if flt (fabs (fsub x (fadd t0 p))) D then d else Fin 0)) t"

definition ex_env :: env where
  "ex_env =
     \<lparr>tinygp_GaussianProcess = (\<lambda>k t d m. Inr ex_gp),
      lstsq = (\<lambda>A b. b),
      linalg_inv = (\<lambda>A. A),
      single_transit = (\<lambda>t t0 D. ex_box t t0 D (Fin 1) None),
      transit = ex_box,
      phase = (\<lambda>t t0 P. map (\<lambda>x. fsub x t0) t),
      fold_ll = (\<lambda>sd P. (t0s sd, ll sd, ll sd))\<rparr>"

definition ex_eval :: "vec \<Rightarrow> fl \<times> vec \<times> mat" where
  "ex_eval m =
     (if m = [Fin 1, Fin 0, Fin 0]
      then (Fin 3, [Fin 1, Fin (- 1)], [[Fin 1, Fin 0], [Fin 0, PInf]])
      else if m = [Fin 0, Fin 1, Fin 0]
      then (Fin 5, [Fin 1, Fin 2], [[Fin 1, Fin 0], [Fin 0, Fin 4]])
      else if m = [Fin 0, Fin 0, Fin 1]
      then (Fin 4, [Fin 1, Fin (- 2)], [[Fin 1, Fin 0], [Fin 0, Fin 0]])
      else if m = [Fin 0, Fin 1, Fin 1]
      then (Fin 6, [Fin 1, Fin 6], [[Fin 1, Fin 0], [Fin 0, Fin 4]])
      else (Fin 1, [Fin 1, Fin 0], [[Fin 1, Fin 0], [Fin 0, NaN]]))"

definition ex_nu :: Nuance where
  "ex_nu =
     \<lparr>time = [Fin 0, Fin 1, Fin 2], flux = [Fin 1, Fin 1, Fin 1],
      error = Some (ScalarNoise (Fin 1)), kernel = None, mean = Fin 0,
      X = [[Fin 1, Fin 1, Fin 1]], gp = ex_gp, eval_m = Some ex_eval, search_data = None\<rparr>"

definition ex_h :: heap where
  "ex_h = \<lparr>sessions = [ex_nu], sdatas = []\<rparr>"

definition ex_t0s :: vec where
  "ex_t0s = [Fin 0, Fin 1, Fin 2]"

definition ex_Ds :: vec where
  "ex_Ds = [Fin 1]"

text \<open>The surface the linear search of this session stores, and the store after it.\<close>

definition ex_sd :: SearchData where
  "ex_sd =
     \<lparr>t0s = ex_t0s, Ds = ex_Ds,
      ll = [[Fin 1], [Fin 5], [Fin 1]],
      z = [[Fin (- 1)], [Fin 2], [Fin (- 2)]],
      vz = [[Fin (10 ^ 25)], [Fin 4], [Fin 0]],
      ll0 = Fin 1,
      periods = None, Q_snr = None, Q_ll = None, Q_params = None, llv = None, llc = None\<rparr>"

definition ex_h1 :: heap where
  "ex_h1 = \<lparr>sessions = [ex_nu\<lparr>search_data := Some 0\<rparr>], sdatas = [ex_sd]\<rparr>"

text \<open>One period, and the store after the periodic search of the session above: the copy
  with the folded results sits behind the untouched surface.\<close>

definition ex_periods :: vec where
  "ex_periods = [Fin 1]"

definition ex_h2 :: heap where
  "ex_h2 =
     \<lparr>sessions = [ex_nu\<lparr>search_data := Some 0\<rparr>],
      sdatas = [ex_sd,
                ex_sd\<lparr>periods := Some ex_periods, Q_snr := Some [Fin 3],
                      Q_ll := Some [Fin (8 / 3)], Q_params := Some [[Fin 1, Fin 1, Fin 1]]\<rparr>]\<rparr>"

text \<open>Masking the transit of epoch 1, duration 1/4 and period 10 in that session removes the
  observation and the grid epoch at time 1: the masked surface, the masked session, and the
  store after the call.\<close>

definition ex_sd_masked :: SearchData where
  "ex_sd_masked =
     ex_sd\<lparr>llv := None, llc := None, periods := None,
           t0s := [Fin 0, Fin 2],
           ll := [[Fin 1], [Fin 1]],
           z := [[Fin (- 1)], [Fin (- 2)]],
           vz := [[Fin (10 ^ 25)], [Fin 0]]\<rparr>"

definition ex_masked :: Nuance where
  "ex_masked =
     (compute_L ex_env
        \<lparr>time = [Fin 0, Fin 2], flux = [Fin 1, Fin 1],
         error = Some (ScalarNoise (Fin 1)), kernel = None, mean = Fin 0,
         X = [[Fin 1, Fin 1]], gp = ex_gp, eval_m = None, search_data = None\<rparr>)
     \<lparr>search_data := Some 1\<rparr>"

definition ex_h3 :: heap where
  "ex_h3 =
     \<lparr>sessions = [ex_nu\<lparr>search_data := Some 0\<rparr>, ex_masked],
      sdatas = [ex_sd, ex_sd_masked]\<rparr>"

text \<open>Two periods for the session above, with a fold whose maximized aggregate grows with
  the period: the second period is the more significant one.\<close>

definition ex_env_p :: env where
  "ex_env_p = ex_env\<lparr>fold_ll := (\<lambda>sd P. (t0s sd, ll sd, map (map (\<lambda>x. fmul x P)) (ll sd)))\<rparr>"

definition ex_periods2 :: vec where
  "ex_periods2 = [Fin 1, Fin (3 / 2)]"







section \<open>Basic facts about the error monad and the loops\<close>

lemma ebind_Inl [simp]: "ebind (Inl e) f = Inl e"
  by (simp add: ebind_def)

lemma ebind_Inr [simp]: "ebind (Inr x) f = f x"
  by (simp add: ebind_def)

lemma ebind_eq_Inr: "ebind m f = Inr y \<longleftrightarrow> (\<exists>x. m = Inr x \<and> f x = Inr y)"
  by (cases m) simp_all

lemma mapM_eq_Inr: "mapM f xs = Inr ys \<longleftrightarrow> list_all2 (\<lambda>x y. f x = Inr y) xs ys"
proof (induction xs arbitrary: ys)
  case Nil
  show ?case by auto
next
  case (Cons x xs)
  show ?case
    by (auto simp: ebind_eq_Inr Cons.IH list_all2_Cons1)
qed

lemma mapM_length: "mapM f xs = Inr ys \<Longrightarrow> length ys = length xs"
  by (simp add: mapM_eq_Inr list_all2_lengthD)

lemma mapM_nth: "mapM f xs = Inr ys \<Longrightarrow> i < length xs \<Longrightarrow> f (xs ! i) = Inr (ys ! i)"
  by (auto simp: mapM_eq_Inr dest: list_all2_nthD)

lemma mapM_total:
  "(\<And>x. x \<in> set xs \<Longrightarrow> \<not> isl (f x)) \<Longrightarrow> \<exists>ys. mapM f xs = Inr ys"
proof (induction xs)
  case Nil
  show ?case by simp
next
  case (Cons x xs)
  from Cons.prems have "\<not> isl (f x)" by simp
  then obtain y where y: "f x = Inr y" by (cases "f x") auto
  from Cons obtain ys where "mapM f xs = Inr ys" by auto
  with y show ?case by simp
qed

lemma mapM_post:
  "mapM (\<lambda>x. ebind (g x) (\<lambda>y. Inr (k y))) xs = ebind (mapM g xs) (\<lambda>ys. Inr (map k ys))"
proof (induction xs)
  case Nil
  show ?case by simp
next
  case (Cons x xs)
  show ?case
    by (cases "g x"; cases "mapM g xs") (simp_all add: Cons.IH)
qed

lemma enumerate_loop_eq:
  "i + length xs \<le> length as \<Longrightarrow> i + length xs \<le> length bs \<Longrightarrow> i + length xs \<le> length cs \<Longrightarrow>
   enumerate_loop body i xs (as, bs, cs) =
     ebind (mapM body xs) (\<lambda>rs.
       Inr (take i as @ map fst rs @ drop (i + length xs) as,
            take i bs @ map (\<lambda>r. fst (snd r)) rs @ drop (i + length xs) bs,
            take i cs @ map (\<lambda>r. snd (snd r)) rs @ drop (i + length xs) cs))"
proof (induction xs arbitrary: i as bs cs)
  case Nil
  show ?case by simp
next
  case (Cons x xs)
  show ?case
  proof (cases "body x")
    case (Inl e)
    then show ?thesis by simp
  next
    case (Inr r)
    obtain a b c where r: "r = (a, b, c)" by (cases r)
    have lens: "i < length as" "i < length bs" "i < length cs"
      using Cons.prems by simp_all
    have step: "enumerate_loop body i (x # xs) (as, bs, cs) =
        enumerate_loop body (Suc i) xs (as[i := a], bs[i := b], cs[i := c])"
      using Inr r by simp
    have IH: "enumerate_loop body (Suc i) xs (as[i := a], bs[i := b], cs[i := c]) =
      ebind (mapM body xs) (\<lambda>rs.
       Inr (take (Suc i) (as[i := a]) @ map fst rs @ drop (Suc i + length xs) (as[i := a]),
            take (Suc i) (bs[i := b]) @ map (\<lambda>r. fst (snd r)) rs @ drop (Suc i + length xs) (bs[i := b]),
            take (Suc i) (cs[i := c]) @ map (\<lambda>r. snd (snd r)) rs @ drop (Suc i + length xs) (cs[i := c])))"
      using Cons.prems by (intro Cons.IH) simp_all
    have tk: "\<And>ys y. i < length ys \<Longrightarrow> take (Suc i) (ys[i := y]) = take i ys @ [y]"
      by (simp add: take_Suc_conv_app_nth)
    have dr: "\<And>ys y. drop (Suc i + length xs) (ys[i := y]) = drop (Suc i + length xs) ys"
      by simp
    show ?thesis
      unfolding step IH using lens Inr r
      by (cases "mapM body xs") (simp_all add: tk)
  qed
qed

lemma enumerate_loop_full:
  "length as = length xs \<Longrightarrow> length bs = length xs \<Longrightarrow> length cs = length xs \<Longrightarrow>
   enumerate_loop body 0 xs (as, bs, cs) =
     ebind (mapM body xs) (\<lambda>rs.
       Inr (map fst rs, map (\<lambda>r. fst (snd r)) rs, map (\<lambda>r. snd (snd r)) rs))"
  by (simp add: enumerate_loop_eq)

lemma mapM2_cell:
  assumes "mapM (\<lambda>x. mapM (g x) ys) xs = Inr cells" "i < length xs" "j < length ys"
  shows "g (xs ! i) (ys ! j) = Inr (cells ! i ! j)"
    and "length cells = length xs" and "length (cells ! i) = length ys"
proof -
  have row: "mapM (g (xs ! i)) ys = Inr (cells ! i)"
    using mapM_nth [OF assms(1,2)] .
  show "g (xs ! i) (ys ! j) = Inr (cells ! i ! j)"
    using mapM_nth [OF row assms(3)] .
  show "length cells = length xs"
    using mapM_length [OF assms(1)] .
  show "length (cells ! i) = length ys"
    using mapM_length [OF row] .
qed

lemma sign_policy_nth:
  "i < length depths \<Longrightarrow> length lls = length depths \<Longrightarrow> j < length (depths ! i) \<Longrightarrow>
   length (lls ! i) = length (depths ! i) \<Longrightarrow>
   sign_policy depths lls l0 ! i ! j = (if flt (depths ! i ! j) (Fin 0) then l0 else lls ! i ! j)"
  by (simp add: sign_policy_def)

lemma sanitize_nth:
  "i < length vars \<Longrightarrow> j < length (vars ! i) \<Longrightarrow>
   sanitize vars ! i ! j = (if isfinite (vars ! i ! j) then vars ! i ! j else Fin (10 ^ 25))"
  by (simp add: sanitize_def)

section \<open>The linear search as a function of the grid of cell results\<close>

lemma linear_search_eq:
  "linear_search E h self t0s' Ds' positive =
     ebind (get_session h self) (\<lambda>nu.
     ebind (mapM (\<lambda>t0. mapM (eval_transit E nu t0) Ds') t0s') (\<lambda>cells.
     ebind (prop_ll0 nu) (\<lambda>l0.
       Inr (PyNone,
            h\<lparr>sdatas := sdatas h @
                 [SearchData_new t0s' Ds'
                    (if positive
                     then sign_policy (map (map fst) cells) (map (map (\<lambda>c. snd (snd c))) cells) l0
                     else map (map (\<lambda>c. snd (snd c))) cells)
                    (map (map fst) cells)
                    (sanitize (map (map (\<lambda>c. fst (snd c))) cells))
                    l0],
              sessions := (sessions h)[self := nu\<lparr>search_data := Some (length (sdatas h))\<rparr>]\<rparr>))))"
proof (cases "get_session h self")
  case (Inl e)
  then show ?thesis by (simp add: linear_search_def)
next
  case (Inr nu)
  let ?body = "\<lambda>t0. vmap_eval_transit E nu t0 Ds'"
  let ?zs = "zeros2 (length t0s') (length Ds')"
  have loop: "enumerate_loop ?body 0 t0s' (?zs, ?zs, ?zs) =
      ebind (mapM (\<lambda>t0. mapM (eval_transit E nu t0) Ds') t0s') (\<lambda>cells.
        Inr (map (map fst) cells, map (map (\<lambda>c. fst (snd c))) cells,
             map (map (\<lambda>c. snd (snd c))) cells))"
  proof -
    have "enumerate_loop ?body 0 t0s' (?zs, ?zs, ?zs) =
        ebind (mapM ?body t0s') (\<lambda>rs.
          Inr (map fst rs, map (\<lambda>r. fst (snd r)) rs, map (\<lambda>r. snd (snd r)) rs))"
      by (rule enumerate_loop_full) (simp_all add: zeros2_def)
    also have "mapM ?body t0s' =
        ebind (mapM (\<lambda>t0. mapM (eval_transit E nu t0) Ds') t0s') (\<lambda>cs.
          Inr (map (\<lambda>cells. (map fst cells, map (\<lambda>c. fst (snd c)) cells,
                               map (\<lambda>c. snd (snd c)) cells)) cs))"
      unfolding vmap_eval_transit_def by (rule mapM_post)
    finally show ?thesis
      by (cases "mapM (\<lambda>t0. mapM (eval_transit E nu t0) Ds') t0s'") (simp_all add: o_def)
  qed
  show ?thesis
  proof (cases "mapM (\<lambda>t0. mapM (eval_transit E nu t0) Ds') t0s'")
    case (Inl e)
    then show ?thesis using Inr loop by (simp add: linear_search_def Let_def)
  next
    case cells: (Inr cells)
    show ?thesis
    proof (cases "eval_m nu")
      case None
      then show ?thesis using Inr loop cells
        by (simp add: linear_search_def Let_def prop_ll0_def get_eval_m_def)
    next
      case (Some f)
      then show ?thesis using Inr loop cells
        by (simp add: linear_search_def Let_def prop_ll0_def get_eval_m_def)
    qed
  qed
qed

lemma get_session_update:
  "get_session h self = Inr nu \<Longrightarrow>
   get_session (h\<lparr>sdatas := ds, sessions := (sessions h)[self := nu']\<rparr>) self = Inr nu'"
  by (auto simp: get_session_def split: if_splits)

lemma linear_search_Inr:
  assumes "linear_search E h self t0s' Ds' positive = Inr (r, h')"
  shows "\<exists>nu cells l0.
           get_session h self = Inr nu \<and>
           mapM (\<lambda>t0. mapM (eval_transit E nu t0) Ds') t0s' = Inr cells \<and>
           prop_ll0 nu = Inr l0 \<and> r = PyNone \<and>
           get_session h' self = Inr (nu\<lparr>search_data := Some (length (sdatas h))\<rparr>) \<and>
           stored_surface h' self =
             Inr (SearchData_new t0s' Ds'
                    (if positive
                     then sign_policy (map (map fst) cells) (map (map (\<lambda>c. snd (snd c))) cells) l0
                     else map (map (\<lambda>c. snd (snd c))) cells)
                    (map (map fst) cells)
                    (sanitize (map (map (\<lambda>c. fst (snd c))) cells))
                    l0)"
proof -
  from assms obtain nu cells l0 where
    nu: "get_session h self = Inr nu" and
    cells: "mapM (\<lambda>t0. mapM (eval_transit E nu t0) Ds') t0s' = Inr cells" and
    l0: "prop_ll0 nu = Inr l0" and
    res: "(r, h') = (PyNone,
            h\<lparr>sdatas := sdatas h @
                 [SearchData_new t0s' Ds'
                    (if positive
                     then sign_policy (map (map fst) cells) (map (map (\<lambda>c. snd (snd c))) cells) l0
                     else map (map (\<lambda>c. snd (snd c))) cells)
                    (map (map fst) cells)
                    (sanitize (map (map (\<lambda>c. fst (snd c))) cells))
                    l0],
              sessions := (sessions h)[self := nu\<lparr>search_data := Some (length (sdatas h))\<rparr>]\<rparr>)"
    unfolding linear_search_eq ebind_eq_Inr by (metis Inr_inject)
  have "stored_surface h' self = get_search_data h' (nu\<lparr>search_data := Some (length (sdatas h))\<rparr>)"
    using res get_session_update [OF nu] by (simp add: stored_surface_def)
  also have "\<dots> = Inr (last (sdatas h'))"
    using res by (simp add: get_search_data_def get_sdata_def nth_append)
  finally show ?thesis using nu cells l0 res get_session_update [OF nu] by auto
qed

lemma linear_search_success:
  assumes nu: "get_session h self = Inr nu" and f: "eval_m nu = Some f"
    and cells: "\<forall>t0\<in>set t0s'. \<forall>D\<in>set Ds'. \<not> isl (eval_transit E nu t0 D)"
  shows "\<exists>h'. linear_search E h self t0s' Ds' positive = Inr (PyNone, h')"
proof -
  have "\<And>t0. t0 \<in> set t0s' \<Longrightarrow> \<not> isl (mapM (eval_transit E nu t0) Ds')"
  proof -
    fix t0 assume "t0 \<in> set t0s'"
    with cells have "\<And>D. D \<in> set Ds' \<Longrightarrow> \<not> isl (eval_transit E nu t0 D)" by blast
    from mapM_total [of Ds' "eval_transit E nu t0", OF this]
    show "\<not> isl (mapM (eval_transit E nu t0) Ds')" by auto
  qed
  from mapM_total [of t0s' "\<lambda>t0. mapM (eval_transit E nu t0) Ds'", OF this]
  obtain cs where "mapM (\<lambda>t0. mapM (eval_transit E nu t0) Ds') t0s' = Inr cs" by blast
  then show ?thesis
    using nu f by (simp add: linear_search_eq prop_ll0_def get_eval_m_def)
qed

section \<open>The concrete run\<close>

lemma ex_get_session: "get_session ex_h 0 = Inr ex_nu"
  by (simp add: get_session_def ex_h_def)

lemma ex_eval_m: "eval_m ex_nu = Some ex_eval"
  by (simp add: ex_nu_def)

lemma ex_cell0: "eval_transit ex_env ex_nu (Fin 0) (Fin 1) = Inr (Fin (- 1), PInf, Fin 3)"
  by (simp add: eval_transit_def ex_env_def ex_nu_def ex_box_def fsub_def get_eval_m_def
      ex_eval_def jnp_index_def)

lemma ex_cell1: "eval_transit ex_env ex_nu (Fin 1) (Fin 1) = Inr (Fin 2, Fin 4, Fin 5)"
  by (simp add: eval_transit_def ex_env_def ex_nu_def ex_box_def fsub_def get_eval_m_def
      ex_eval_def jnp_index_def)

lemma ex_cell2: "eval_transit ex_env ex_nu (Fin 2) (Fin 1) = Inr (Fin (- 2), Fin 0, Fin 4)"
  by (simp add: eval_transit_def ex_env_def ex_nu_def ex_box_def fsub_def get_eval_m_def
      ex_eval_def jnp_index_def)

lemma ex_ll0: "prop_ll0 ex_nu = Inr (Fin 1)"
  by (simp add: prop_ll0_def get_eval_m_def ex_nu_def zeros_like_def ex_eval_def)

lemma ex_linear_search:
  "linear_search ex_env ex_h 0 ex_t0s ex_Ds True = Inr (PyNone, ex_h1)"
  unfolding linear_search_eq ex_get_session
  by (simp add: ex_t0s_def ex_Ds_def ex_cell0 ex_cell1 ex_cell2
      ex_ll0 sign_policy_def sanitize_def isfinite_def SearchData_new_def ex_h1_def ex_sd_def
      ex_h_def)

lemma ex_linear_search_False:
  "linear_search ex_env ex_h 0 ex_t0s ex_Ds False =
     Inr (PyNone, ex_h1\<lparr>sdatas := [ex_sd\<lparr>ll := [[Fin 3], [Fin 5], [Fin 4]]\<rparr>]\<rparr>)"
  unfolding linear_search_eq ex_get_session
  by (simp add: ex_t0s_def ex_Ds_def ex_cell0 ex_cell1 ex_cell2
      ex_ll0 sign_policy_def sanitize_def isfinite_def SearchData_new_def ex_h1_def ex_sd_def
      ex_h_def)

lemma ex_stored: "stored_surface ex_h1 0 = Inr ex_sd"
  by (simp add: stored_surface_def get_session_def get_search_data_def get_sdata_def ex_h1_def)

section \<open>Construction without an error array\<close>

text \<open>C10 (the code fails where the claim promises success): the signature of the
  constructor gives \<^verbatim>\<open>error\<close> the default \<^verbatim>\<open>None\<close>, but the body squares it
  unconditionally, so a session constructed without \<^verbatim>\<open>error\<close> raises \<^verbatim>\<open>TypeError\<close>,
  whatever the other arguments are.\<close>

theorem Nuance_init_error_None:
  "Nuance_init E h time' flux' None kernel' X' compute mean' = Inl TypeError"
  by (simp add: Nuance_init_def py_square_def Let_def)

section \<open>The sign policy\<close>

text \<open>C1, the claim as stated fails: at epoch 0 and duration 1 of the concrete run the fitted
  depth is negative and the fitted variance is infinite; the stored variance is the sentinel
  \<open>10^25\<close>, not the raw fitted value.\<close>

theorem sign_policy_variance_counterexample:
  "linear_search ex_env ex_h 0 ex_t0s ex_Ds True = Inr (PyNone, ex_h1) \<and>
   eval_transit ex_env ex_nu (ex_t0s ! 0) (ex_Ds ! 0) = Inr (Fin (- 1), PInf, Fin 3) \<and>
   flt (Fin (- 1)) (Fin 0) \<and>
   stored_surface ex_h1 0 = Inr ex_sd \<and>
   z ex_sd ! 0 ! 0 = Fin (- 1) \<and>
   vz ex_sd ! 0 ! 0 \<noteq> PInf"
proof (intro conjI)
  show "linear_search ex_env ex_h 0 ex_t0s ex_Ds True = Inr (PyNone, ex_h1)"
    by (rule ex_linear_search)
  show "eval_transit ex_env ex_nu (ex_t0s ! 0) (ex_Ds ! 0) = Inr (Fin (- 1), PInf, Fin 3)"
    by (simp add: ex_t0s_def ex_Ds_def ex_cell0)
  show "stored_surface ex_h1 0 = Inr ex_sd"
    by (rule ex_stored)
qed (simp_all add: ex_sd_def)

text \<open>C1, amended: with \<^verbatim>\<open>positive=True\<close>, at every grid cell whose fitted depth is negative
  the stored log-likelihood is \<open>ll0\<close>, the stored depth is the raw fitted depth, and the
  stored variance is the raw fitted variance when that is finite and the sentinel \<open>10^25\<close>
  otherwise. The sign policy itself changes neither grid: the search with
  \<^verbatim>\<open>positive=False\<close> stores the same depths and variances.\<close>

theorem linear_search_sign_policy:
  assumes run: "linear_search E h self t0s' Ds' True = Inr (r, h')"
    and nu: "get_session h self = Inr nu"
    and i: "i < length t0s'" and j: "j < length Ds'"
    and cell: "eval_transit E nu (t0s' ! i) (Ds' ! j) = Inr (d, v, l)"
    and neg: "flt d (Fin 0)"
  shows "\<exists>sd. stored_surface h' self = Inr sd \<and>
           ll sd ! i ! j = ll0 sd \<and>
           z sd ! i ! j = d \<and>
           vz sd ! i ! j = (if isfinite v then v else Fin (10 ^ 25)) \<and>
           (\<exists>r2 h2 sd2. linear_search E h self t0s' Ds' False = Inr (r2, h2) \<and>
              stored_surface h2 self = Inr sd2 \<and> z sd2 = z sd \<and> vz sd2 = vz sd)"
proof -
  from linear_search_Inr [OF run] nu obtain cells l0 where
    cells: "mapM (\<lambda>t0. mapM (eval_transit E nu t0) Ds') t0s' = Inr cells" and
    l0: "prop_ll0 nu = Inr l0" and
    st: "stored_surface h' self =
           Inr (SearchData_new t0s' Ds'
                  (sign_policy (map (map fst) cells) (map (map (\<lambda>c. snd (snd c))) cells) l0)
                  (map (map fst) cells)
                  (sanitize (map (map (\<lambda>c. fst (snd c))) cells))
                  l0)"
    by auto
  let ?sd = "SearchData_new t0s' Ds'
                  (sign_policy (map (map fst) cells) (map (map (\<lambda>c. snd (snd c))) cells) l0)
                  (map (map fst) cells)
                  (sanitize (map (map (\<lambda>c. fst (snd c))) cells))
                  l0"
  have c: "cells ! i ! j = (d, v, l)" and len: "length cells = length t0s'"
    and leni: "length (cells ! i) = length Ds'"
    using mapM2_cell [OF cells i j] cell by simp_all
  have zc: "z ?sd ! i ! j = d"
    using c len leni i j by (simp add: SearchData_new_def)
  have vc: "vz ?sd ! i ! j = (if isfinite v then v else Fin (10 ^ 25))"
    using c len leni i j by (simp add: SearchData_new_def sanitize_nth)
  have lc: "ll ?sd ! i ! j = ll0 ?sd"
    using c len leni i j neg by (simp add: SearchData_new_def sign_policy_nth)
  have run2: "\<exists>h2. linear_search E h self t0s' Ds' False = Inr (PyNone, h2)"
    using nu cells l0 by (simp add: linear_search_eq)
  then obtain h2 where h2: "linear_search E h self t0s' Ds' False = Inr (PyNone, h2)" ..
  from linear_search_Inr [OF h2] nu cells
  have "\<exists>sd2. stored_surface h2 self = Inr sd2 \<and> z sd2 = z ?sd \<and> vz sd2 = vz ?sd"
    by (auto simp: SearchData_new_def)
  with h2 st zc vc lc show ?thesis by blast
qed

theorem linear_search_sign_policy_witness:
  "linear_search ex_env ex_h 0 ex_t0s ex_Ds True = Inr (PyNone, ex_h1) \<and>
   eval_transit ex_env ex_nu (ex_t0s ! 2) (ex_Ds ! 0) = Inr (Fin (- 2), Fin 0, Fin 4) \<and>
   (\<exists>sd. stored_surface ex_h1 0 = Inr sd \<and>
      ll sd ! 2 ! 0 = ll0 sd \<and> z sd ! 2 ! 0 = Fin (- 2) \<and> vz sd ! 2 ! 0 = Fin 0)"
proof -
  have c: "eval_transit ex_env ex_nu (ex_t0s ! 2) (ex_Ds ! 0) = Inr (Fin (- 2), Fin 0, Fin 4)"
    by (simp add: ex_t0s_def ex_Ds_def ex_cell2)
  have "\<exists>sd. stored_surface ex_h1 0 = Inr sd \<and>
           ll sd ! 2 ! 0 = ll0 sd \<and>
           z sd ! 2 ! 0 = Fin (- 2) \<and>
           vz sd ! 2 ! 0 = (if isfinite (Fin 0) then Fin 0 else Fin (10 ^ 25)) \<and>
           (\<exists>r2 h2 sd2. linear_search ex_env ex_h 0 ex_t0s ex_Ds False = Inr (r2, h2) \<and>
              stored_surface h2 0 = Inr sd2 \<and> z sd2 = z sd \<and> vz sd2 = vz sd)"
    by (rule linear_search_sign_policy [OF ex_linear_search ex_get_session _ _ c])
      (simp_all add: ex_t0s_def ex_Ds_def)
  then show ?thesis
    using ex_linear_search c by (auto simp: isfinite_def)
qed

section \<open>Variance sanitation\<close>

lemma sanitize_finite: "row \<in> set (sanitize vars) \<Longrightarrow> x \<in> set row \<Longrightarrow> isfinite x"
  by (auto simp: sanitize_def isfinite_def)

text \<open>C2, the claim as stated fails: at epoch 2 and duration 1 of the concrete run the fitted
  variance is 0, which is finite, so the sanitation keeps it; the stored variance is not
  positive.\<close>

theorem vz_positive_counterexample:
  "linear_search ex_env ex_h 0 ex_t0s ex_Ds True = Inr (PyNone, ex_h1) \<and>
   eval_transit ex_env ex_nu (ex_t0s ! 2) (ex_Ds ! 0) = Inr (Fin (- 2), Fin 0, Fin 4) \<and>
   stored_surface ex_h1 0 = Inr ex_sd \<and>
   vz ex_sd ! 2 ! 0 = Fin 0 \<and>
   \<not> flt (Fin 0) (vz ex_sd ! 2 ! 0)"
proof (intro conjI)
  show "linear_search ex_env ex_h 0 ex_t0s ex_Ds True = Inr (PyNone, ex_h1)"
    by (rule ex_linear_search)
  show "eval_transit ex_env ex_nu (ex_t0s ! 2) (ex_Ds ! 0) = Inr (Fin (- 2), Fin 0, Fin 4)"
    by (simp add: ex_t0s_def ex_Ds_def ex_cell2)
  show "stored_surface ex_h1 0 = Inr ex_sd"
    by (rule ex_stored)
qed (simp_all add: ex_sd_def)

text \<open>C2, amended: after a linear search every entry of the stored variance grid is finite.
  A cell holds the fitted variance when that is finite (whatever its sign) and the sentinel
  \<open>10^25\<close> when it is not.\<close>

theorem linear_search_vz_finite:
  assumes run: "linear_search E h self t0s' Ds' positive = Inr (r, h')"
    and nu: "get_session h self = Inr nu"
  shows "\<exists>sd. stored_surface h' self = Inr sd \<and>
           (\<forall>row\<in>set (vz sd). \<forall>x\<in>set row. isfinite x) \<and>
           (\<forall>i<length t0s'. \<forall>j<length Ds'.
              \<exists>d v l. eval_transit E nu (t0s' ! i) (Ds' ! j) = Inr (d, v, l) \<and>
                vz sd ! i ! j = (if isfinite v then v else Fin (10 ^ 25)))"
proof -
  from linear_search_Inr [OF run] nu obtain cells l0 ll' where
    cells: "mapM (\<lambda>t0. mapM (eval_transit E nu t0) Ds') t0s' = Inr cells" and
    st: "stored_surface h' self =
           Inr (SearchData_new t0s' Ds' ll' (map (map fst) cells)
                  (sanitize (map (map (\<lambda>c. fst (snd c))) cells)) l0)"
    by auto
  let ?sd = "SearchData_new t0s' Ds' ll' (map (map fst) cells)
                  (sanitize (map (map (\<lambda>c. fst (snd c))) cells)) l0"
  have fin: "\<forall>row\<in>set (vz ?sd). \<forall>x\<in>set row. isfinite x"
    by (auto simp: SearchData_new_def dest: sanitize_finite)
  have cellwise: "\<exists>d v l. eval_transit E nu (t0s' ! i) (Ds' ! j) = Inr (d, v, l) \<and>
                vz ?sd ! i ! j = (if isfinite v then v else Fin (10 ^ 25))"
    if i: "i < length t0s'" and j: "j < length Ds'" for i j
  proof -
    obtain d v l where c: "cells ! i ! j = (d, v, l)" by (cases "cells ! i ! j")
    have "eval_transit E nu (t0s' ! i) (Ds' ! j) = Inr (d, v, l)"
      using mapM2_cell(1) [OF cells i j] c by simp
    moreover have "vz ?sd ! i ! j = (if isfinite v then v else Fin (10 ^ 25))"
      using mapM2_cell(2,3) [OF cells i j] c i j by (simp add: SearchData_new_def sanitize_nth)
    ultimately show ?thesis by blast
  qed
  from st fin cellwise show ?thesis by blast
qed

theorem linear_search_vz_finite_witness:
  "linear_search ex_env ex_h 0 ex_t0s ex_Ds True = Inr (PyNone, ex_h1) \<and>
   get_session ex_h 0 = Inr ex_nu \<and>
   (\<exists>sd. stored_surface ex_h1 0 = Inr sd \<and> isfinite (vz sd ! 0 ! 0) \<and>
      vz sd ! 0 ! 0 = Fin (10 ^ 25))"
proof -
  from linear_search_vz_finite [OF ex_linear_search ex_get_session]
  obtain sd where sd: "stored_surface ex_h1 0 = Inr sd"
    and cellwise: "\<forall>i<length ex_t0s. \<forall>j<length ex_Ds.
              \<exists>d v l. eval_transit ex_env ex_nu (ex_t0s ! i) (ex_Ds ! j) = Inr (d, v, l) \<and>
                vz sd ! i ! j = (if isfinite v then v else Fin (10 ^ 25))"
    by blast
  have "0 < length ex_t0s" "0 < length ex_Ds" by (simp_all add: ex_t0s_def ex_Ds_def)
  with cellwise obtain d v l where
    "eval_transit ex_env ex_nu (ex_t0s ! 0) (ex_Ds ! 0) = Inr (d, v, l)"
    "vz sd ! 0 ! 0 = (if isfinite v then v else Fin (10 ^ 25))"
    by blast
  then have "vz sd ! 0 ! 0 = Fin (10 ^ 25)"
    by (simp add: ex_t0s_def ex_Ds_def ex_cell0 isfinite_def)
  with sd ex_linear_search ex_get_session show ?thesis
    by (auto simp: isfinite_def)
qed

section \<open>Empty grids and the return value\<close>

text \<open>C6, the claim as stated fails: the concrete session searched on an empty epoch sequence
  raises nothing and stores a surface with empty grids.\<close>

theorem linear_search_empty_counterexample:
  "linear_search ex_env ex_h 0 [] ex_Ds True =
     Inr (PyNone,
          \<lparr>sessions = [ex_nu\<lparr>search_data := Some 0\<rparr>],
           sdatas = [SearchData_new [] ex_Ds [] [] [] (Fin 1)]\<rparr>)"
  unfolding linear_search_eq ex_get_session
  by (simp add: ex_ll0 sign_policy_def sanitize_def ex_h_def)

text \<open>C6, amended: on a session whose evaluator has been computed, a linear search with an
  empty epoch sequence or with an empty duration sequence raises no error; it returns
  \<^verbatim>\<open>None\<close> and stores a surface whose grids have no cells (no rows, respectively one empty
  row per epoch), with \<open>ll0\<close> as usual.\<close>

theorem linear_search_empty_grid:
  assumes nu: "get_session h self = Inr nu" and f: "eval_m nu = Some f"
  shows "linear_search E h self [] Ds' positive =
           Inr (PyNone,
                h\<lparr>sdatas := sdatas h @
                     [SearchData_new [] Ds' [] [] [] (fst (f (zeros_like (time nu))))],
                  sessions := (sessions h)[self := nu\<lparr>search_data := Some (length (sdatas h))\<rparr>]\<rparr>)
         \<and> linear_search E h self t0s' [] positive =
           Inr (PyNone,
                h\<lparr>sdatas := sdatas h @
                     [SearchData_new t0s' []
                        (replicate (length t0s') []) (replicate (length t0s') [])
                        (replicate (length t0s') []) (fst (f (zeros_like (time nu))))],
                  sessions := (sessions h)[self := nu\<lparr>search_data := Some (length (sdatas h))\<rparr>]\<rparr>)"
proof -
  have rows: "mapM (\<lambda>t0. mapM (eval_transit E nu t0) []) t0s' = Inr (replicate (length t0s') [])"
    by (induction t0s') simp_all
  have l0: "prop_ll0 nu = Inr (fst (f (zeros_like (time nu))))"
    using f by (simp add: prop_ll0_def get_eval_m_def)
  show ?thesis
    unfolding linear_search_eq using nu l0 rows
    by (simp add: sign_policy_def sanitize_def map_replicate_const zip_replicate)
qed

theorem linear_search_empty_grid_witness:
  "get_session ex_h 0 = Inr ex_nu \<and> eval_m ex_nu = Some ex_eval \<and>
   linear_search ex_env ex_h 0 [] ex_Ds True =
     Inr (PyNone,
          ex_h\<lparr>sdatas := sdatas ex_h @
                 [SearchData_new [] ex_Ds [] [] [] (fst (ex_eval (zeros_like (time ex_nu))))],
               sessions := (sessions ex_h)[0 := ex_nu\<lparr>search_data := Some (length (sdatas ex_h))\<rparr>]\<rparr>)"
  using linear_search_empty_grid [OF ex_get_session ex_eval_m, of ex_env ex_Ds True]
    ex_get_session ex_eval_m
  by simp

text \<open>C7, the claim as stated fails: the concrete run returns \<^verbatim>\<open>None\<close>, not a search
  surface.\<close>

theorem linear_search_return_counterexample:
  "linear_search ex_env ex_h 0 ex_t0s ex_Ds True = Inr (PyNone, ex_h1) \<and>
   \<not> returns_surface (linear_search ex_env ex_h 0 ex_t0s ex_Ds True)"
  by (simp add: ex_linear_search returns_surface_def)

text \<open>C7, amended: on a session whose evaluator has been computed and for a grid on which
  every cell evaluation returns, \<^verbatim>\<open>linear_search\<close> returns \<^verbatim>\<open>None\<close>; the search surface is
  stored as the session's \<^verbatim>\<open>search_data\<close>: the epochs and durations, the three grids
  \<open>ll\<close>, \<open>z\<close>, \<open>vz\<close> with one row per epoch and one column per duration, and the null
  log-likelihood \<open>ll0\<close> as the property \<^verbatim>\<open>ll0\<close> computes it.\<close>

theorem linear_search_returns_None:
  assumes nu: "get_session h self = Inr nu" and f: "eval_m nu = Some f"
    and cells: "\<forall>t0\<in>set t0s'. \<forall>D\<in>set Ds'. \<not> isl (eval_transit E nu t0 D)"
  shows "\<exists>h' sd. linear_search E h self t0s' Ds' positive = Inr (PyNone, h') \<and>
           stored_surface h' self = Inr sd \<and>
           t0s sd = t0s' \<and> Ds sd = Ds' \<and>
           length (ll sd) = length t0s' \<and> length (z sd) = length t0s' \<and>
           length (vz sd) = length t0s' \<and>
           (\<forall>row\<in>set (ll sd). length row = length Ds') \<and>
           (\<forall>row\<in>set (z sd). length row = length Ds') \<and>
           (\<forall>row\<in>set (vz sd). length row = length Ds') \<and>
           prop_ll0 nu = Inr (ll0 sd)"
proof -
  from linear_search_success [OF nu f cells]
  obtain h' where run: "linear_search E h self t0s' Ds' positive = Inr (PyNone, h')" ..
  from linear_search_Inr [OF run] nu obtain cs l0 where
    cs: "mapM (\<lambda>t0. mapM (eval_transit E nu t0) Ds') t0s' = Inr cs" and
    l0: "prop_ll0 nu = Inr l0" and
    st: "stored_surface h' self =
           Inr (SearchData_new t0s' Ds'
                  (if positive
                   then sign_policy (map (map fst) cs) (map (map (\<lambda>c. snd (snd c))) cs) l0
                   else map (map (\<lambda>c. snd (snd c))) cs)
                  (map (map fst) cs)
                  (sanitize (map (map (\<lambda>c. fst (snd c))) cs))
                  l0)"
    by auto
  have len: "length cs = length t0s'"
    using mapM_length [OF cs] .
  have rowlen: "length row = length Ds'" if "row \<in> set cs" for row
  proof -
    from that obtain i where i: "i < length cs" and row: "row = cs ! i"
      by (auto simp: in_set_conv_nth)
    from mapM_nth [OF cs] i len have "mapM (eval_transit E nu (t0s' ! i)) Ds' = Inr (cs ! i)"
      by simp
    from mapM_length [OF this] row show ?thesis by simp
  qed
  have sp: "length (sign_policy (map (map fst) cs) (map (map (\<lambda>c. snd (snd c))) cs) l0) = length t0s'"
    using len by (simp add: sign_policy_def)
  have sprow: "length row = length Ds'"
    if "row \<in> set (sign_policy (map (map fst) cs) (map (map (\<lambda>c. snd (snd c))) cs) l0)" for row
  proof -
    from that obtain a b where "(a, b) \<in> set (zip (map (map fst) cs) (map (map (\<lambda>c. snd (snd c))) cs))"
      and row: "row = map2 (\<lambda>d l. if flt d (Fin 0) then l0 else l) a b"
      by (auto simp: sign_policy_def)
    then have "a \<in> set (map (map fst) cs)" "b \<in> set (map (map (\<lambda>c. snd (snd c))) cs)"
      by (auto dest: set_zip_leftD set_zip_rightD)
    then have "length a = length Ds'" "length b = length Ds'"
      using rowlen by auto
    with row show ?thesis by simp
  qed
  show ?thesis
    using run st l0 len rowlen sp sprow
    by (auto simp: SearchData_new_def sanitize_def)
qed

theorem linear_search_returns_None_witness:
  "get_session ex_h 0 = Inr ex_nu \<and> eval_m ex_nu = Some ex_eval \<and>
   (\<exists>h' sd. linear_search ex_env ex_h 0 ex_t0s ex_Ds True = Inr (PyNone, h') \<and>
      stored_surface h' 0 = Inr sd \<and> t0s sd = ex_t0s \<and> Ds sd = ex_Ds \<and>
      length (ll sd) = 3 \<and> prop_ll0 ex_nu = Inr (ll0 sd))"
proof -
  have cells: "\<forall>t0\<in>set ex_t0s. \<forall>D\<in>set ex_Ds. \<not> isl (eval_transit ex_env ex_nu t0 D)"
    by (simp add: ex_t0s_def ex_Ds_def ex_cell0 ex_cell1 ex_cell2)
  have "length ex_t0s = 3" by (simp add: ex_t0s_def)
  with linear_search_returns_None [OF ex_get_session ex_eval_m cells, of True]
  show ?thesis using ex_get_session ex_eval_m by auto
qed

section \<open>The order on floats and the arg-max\<close>

lemma flt_irrefl: "\<not> flt x x"
  by (cases x) simp_all

lemma fle_not_flt: "fle x y \<Longrightarrow> \<not> flt y x"
  by (cases x; cases y) simp_all

lemma not_fle_flt: "\<not> fle x y \<Longrightarrow> \<not> isnan x \<Longrightarrow> \<not> isnan y \<Longrightarrow> flt y x"
  by (cases x; cases y) (simp_all add: isnan_def)

lemma flt_trans: "flt a b \<Longrightarrow> flt b c \<Longrightarrow> flt a c"
  by (cases a; cases b; cases c) simp_all

lemma flt_nan: "isnan x \<Longrightarrow> \<not> flt x y"
  by (cases x) (simp_all add: isnan_def)

lemma argmax_loop_max:
  assumes "\<not> isnan mp" "mi < length pre" "pre ! mi = mp" "\<forall>y\<in>set pre. \<not> flt mp y"
    and "i = length pre"
  shows "argmax_loop xs i mp mi < length (pre @ xs) \<and>
         (\<forall>y\<in>set (pre @ xs). \<not> flt ((pre @ xs) ! argmax_loop xs i mp mi) y)"
  using assms
proof (induction xs arbitrary: pre mp mi i)
  case Nil
  then show ?case by simp
next
  case (Cons x xs)
  show ?case
  proof (cases "fle x mp")
    case True
    have "\<forall>y\<in>set (pre @ [x]). \<not> flt mp y"
      using Cons.prems(4) True by (auto dest: fle_not_flt)
    from Cons.IH [of mp mi "pre @ [x]" "Suc i", OF Cons.prems(1) _ _ this]
    show ?thesis using True Cons.prems by (simp add: nth_append)
  next
    case False
    show ?thesis
    proof (cases "isnan x")
      case True
      then show ?thesis using False Cons.prems(5) by (simp add: flt_nan)
    next
      case notnan: False
      have lt: "flt mp x"
        using False notnan Cons.prems(1) by (rule not_fle_flt)
      have "\<forall>y\<in>set (pre @ [x]). \<not> flt x y"
        using Cons.prems(4) lt by (auto simp: flt_irrefl dest: flt_trans)
      from Cons.IH [of x i "pre @ [x]" "Suc i", OF notnan _ _ this]
      show ?thesis using False notnan Cons.prems(5) by (simp add: nth_append)
    qed
  qed
qed

lemma np_argmax_max:
  assumes "np_argmax xs = Inr k"
  shows "k < length xs \<and> (\<forall>y\<in>set xs. \<not> flt (xs ! k) y)"
proof (cases xs)
  case Nil
  with assms show ?thesis by (simp add: np_argmax_def)
next
  case (Cons x rest)
  show ?thesis
  proof (cases "isnan x")
    case True
    with assms Cons show ?thesis by (auto simp: np_argmax_def flt_nan)
  next
    case False
    from argmax_loop_max [of x 0 "[x]" 1 rest] False
    have "argmax_loop rest 1 x 0 < length (x # rest) \<and>
          (\<forall>y\<in>set (x # rest). \<not> flt ((x # rest) ! argmax_loop rest 1 x 0) y)"
      by (simp add: flt_irrefl)
    with assms Cons False show ?thesis by (simp add: np_argmax_def)
  qed
qed

lemma concat_nth_rect:
  "\<forall>row\<in>set M. length row = c \<Longrightarrow> k < length (concat M) \<Longrightarrow>
   k div c < length M \<and> concat M ! k = M ! (k div c) ! (k mod c)"
proof (induction M arbitrary: k)
  case Nil
  then show ?case by simp
next
  case (Cons r M)
  have lr: "length r = c" using Cons.prems(1) by simp
  show ?case
  proof (cases "k < c")
    case True
    then show ?thesis using lr by (simp add: nth_append)
  next
    case False
    then have ge: "c \<le> k" by simp
    have cpos: "0 < c"
    proof (rule ccontr)
      assume "\<not> 0 < c"
      then have "c = 0" by simp
      with Cons.prems(1) have "\<forall>row\<in>set (r # M). row = []" by simp
      then have e: "concat (r # M) = []" unfolding concat_eq_Nil_conv .
      show False using Cons.prems(2) unfolding e by simp
    qed
    have "k - c < length (concat M)" using Cons.prems(2) lr ge by simp
    with Cons.IH [of "k - c"] Cons.prems(1)
    have IH: "(k - c) div c < length M" "concat M ! (k - c) = M ! ((k - c) div c) ! ((k - c) mod c)"
      by simp_all
    have d: "k div c = Suc ((k - c) div c)" using ge cpos by (simp add: le_div_geq)
    have m: "k mod c = (k - c) mod c" using ge by (simp add: le_mod_geq)
    show ?thesis using IH lr False d m by (simp add: nth_append)
  qed
qed

lemma nth_nth_in_concat: "i < length M \<Longrightarrow> j < length (M ! i) \<Longrightarrow> M ! i ! j \<in> set (concat M)"
  by (metis nth_mem set_concat UN_I)

section \<open>The periodic search as a function of the per-period results\<close>

lemma np_index_eq_Inr: "np_index xs i = Inr x \<longleftrightarrow> i < length xs \<and> x = xs ! i"
  by (auto simp: np_index_def)

lemma np_index2_eq_Inr:
  "np_index2 M i j = Inr x \<longleftrightarrow> i < length M \<and> j < length (M ! i) \<and> x = M ! i ! j"
  by (auto simp: np_index2_def ebind_eq_Inr np_index_eq_Inr)

lemma index_last_eq_Inr: "index_last xs = Inr x \<longleftrightarrow> xs \<noteq> [] \<and> x = last xs"
  by (auto simp: index_last_def)

lemma snr_eq_Inr:
  "snr E nu t0 D P = Inr s \<longleftrightarrow>
     (\<exists>f l w v. eval_m nu = Some f \<and> f (transit E (time nu) t0 D (Fin 1) P) = (l, w, v) \<and>
        w \<noteq> [] \<and> v \<noteq> [] \<and> last v \<noteq> [] \<and> s = fdiv (last w) (fsqrt (last (last v))))"
  by (cases "eval_m nu"; cases "the (eval_m nu) (transit E (time nu) t0 D (Fin 1) P)")
    (auto simp: snr_def depth_def solve_def get_eval_m_def ebind_eq_Inr index_last_eq_Inr Let_def)

lemma period_body_Inr:
  assumes "period_body E nu sd P = Inr (s, m, row)" and "fold_ll E sd P = (ph, P1, P2)"
  shows "\<exists>k i j. np_argmax (concat P2) = Inr k \<and> unravel_index k (shape2 P2) = (i, j) \<and>
           i < length ph \<and> j < length (Ds sd) \<and> i < length P2 \<and> j < length (P2 ! i) \<and>
           snr E nu (fmul (ph ! i) P) (Ds sd ! j) (Some P) = Inr s \<and>
           m = fsub (P2 ! i ! j) (np_mean (concat P2)) \<and>
           row = [fmul (ph ! i) P, Ds sd ! j, P]"
proof -
  from assms obtain k where k: "np_argmax (concat P2) = Inr k"
    by (auto simp: period_body_def ebind_eq_Inr)
  obtain i j where ij: "unravel_index k (shape2 P2) = (i, j)"
    by (cases "unravel_index k (shape2 P2)")
  from assms k ij show ?thesis
    by (auto simp: period_body_def ebind_eq_Inr np_index_eq_Inr np_index2_eq_Inr Let_def)
qed

lemma periodic_search_eq:
  "periodic_search E h self Ps =
     ebind (get_session h self) (\<lambda>nu.
     ebind (get_search_data h nu) (\<lambda>sd.
     ebind (mapM (period_body E nu sd) Ps) (\<lambda>rs.
       Inr (RefSearchData (length (sdatas h)),
            h\<lparr>sdatas := sdatas h @
                 [sd\<lparr>periods := Some Ps,
                     Q_snr := Some (map fst rs),
                     Q_ll := Some (map (\<lambda>r. fst (snd r)) rs),
                     Q_params := Some (map (\<lambda>r. snd (snd r)) rs)\<rparr>]\<rparr>))))"
proof (cases "get_session h self")
  case (Inl e)
  then show ?thesis by (simp add: periodic_search_def)
next
  case nu: (Inr nu)
  show ?thesis
  proof (cases "get_search_data h nu")
    case (Inl e)
    then show ?thesis using nu by (simp add: periodic_search_def)
  next
    case sd: (Inr sd)
    have loop: "enumerate_loop (period_body E nu sd) 0 Ps
          (replicate (length Ps) (Fin 0), replicate (length Ps) (Fin 0), zeros2 (length Ps) 3) =
        ebind (mapM (period_body E nu sd) Ps) (\<lambda>rs.
          Inr (map fst rs, map (\<lambda>r. fst (snd r)) rs, map (\<lambda>r. snd (snd r)) rs))"
      by (rule enumerate_loop_full) (simp_all add: zeros2_def)
    show ?thesis
      using nu sd
      by (cases "mapM (period_body E nu sd) Ps")
        (simp_all add: periodic_search_def SearchData_copy_def Let_def loop)
  qed
qed

lemma stored_surface_Inr:
  "stored_surface h self = Inr sd \<longleftrightarrow>
     (\<exists>nu. get_session h self = Inr nu \<and> get_search_data h nu = Inr sd)"
  by (simp add: stored_surface_def ebind_eq_Inr)

lemma get_search_data_append:
  "get_search_data h nu = Inr sd \<Longrightarrow> get_search_data (h\<lparr>sdatas := sdatas h @ new\<rparr>) nu = Inr sd"
  by (auto simp: get_search_data_def get_sdata_def nth_append split: option.splits if_splits)

lemma periodic_search_Inr:
  assumes "periodic_search E h self Ps = Inr (r, h')"
  shows "\<exists>nu sd rs.
           get_session h self = Inr nu \<and> get_search_data h nu = Inr sd \<and>
           mapM (period_body E nu sd) Ps = Inr rs \<and>
           r = RefSearchData (length (sdatas h)) \<and>
           h' = h\<lparr>sdatas := sdatas h @
                 [sd\<lparr>periods := Some Ps,
                     Q_snr := Some (map fst rs),
                     Q_ll := Some (map (\<lambda>r. fst (snd r)) rs),
                     Q_params := Some (map (\<lambda>r. snd (snd r)) rs)\<rparr>]\<rparr>"
  using assms unfolding periodic_search_eq ebind_eq_Inr by (metis Inr_inject prod.inject)

section \<open>The concrete periodic search\<close>

lemma ex_get_session1: "get_session ex_h1 0 = Inr (ex_nu\<lparr>search_data := Some 0\<rparr>)"
  by (simp add: get_session_def ex_h1_def)

lemma ex_get_search_data1: "get_search_data ex_h1 (ex_nu\<lparr>search_data := Some 0\<rparr>) = Inr ex_sd"
  by (simp add: get_search_data_def get_sdata_def ex_h1_def)

lemma ex_fold: "fold_ll ex_env ex_sd (Fin 1) = (ex_t0s, ll ex_sd, ll ex_sd)"
  by (simp add: ex_env_def ex_sd_def)

lemma ex_snr: "snr ex_env (ex_nu\<lparr>search_data := Some 0\<rparr>) (Fin 1) (Fin 1) (Some (Fin 1)) = Inr (Fin 3)"
  by (simp add: snr_def depth_def solve_def get_eval_m_def ex_nu_def ex_env_def ex_box_def
      fsub_def ex_eval_def index_last_def)

lemma ex_period_body:
  "period_body ex_env (ex_nu\<lparr>search_data := Some 0\<rparr>) ex_sd (Fin 1) =
     Inr (Fin 3, Fin (8 / 3), [Fin 1, Fin 1, Fin 1])"
  unfolding period_body_def ex_fold
  by (simp add: ex_sd_def ex_t0s_def ex_Ds_def np_argmax_def isnan_def unravel_index_def
      shape2_def np_index_def np_index2_def ex_snr np_mean_def fsub_def Let_def)

lemma ex_periodic_search: "periodic_search ex_env ex_h1 0 ex_periods = Inr (RefSearchData 1, ex_h2)"
  unfolding periodic_search_eq ex_get_session1 ebind_Inr ex_get_search_data1
  by (simp add: ex_periods_def ex_period_body ex_h1_def ex_h2_def)

lemma ex_stored2: "stored_surface ex_h2 0 = Inr ex_sd"
  by (simp add: stored_surface_def get_session_def get_search_data_def get_sdata_def ex_h2_def)

section \<open>The best cell of each period\<close>

text \<open>C3: for the period at position \<open>p\<close>, with \<open>(phase, P1, P2)\<close> the fold of the stored
  surface at that period, the search takes the cell \<open>(i, j)\<close> that \<^verbatim>\<open>np.argmax\<close> and
  \<^verbatim>\<open>np.unravel_index\<close> give for \<open>P2\<close>: no cell of \<open>P2\<close> is larger. The recorded epoch is
  \<open>phase[i] * P\<close>, the recorded duration is \<open>Ds[j]\<close>, and the recorded \<open>max_ll\<close> is
  \<open>P2[i, j]\<close> minus the mean of \<open>P2\<close>. (\<open>P2\<close> is a two-dimensional array: its rows have one
  length.)\<close>

theorem periodic_search_best_cell:
  assumes run: "periodic_search E h self Ps = Inr (r, h')"
    and sd: "stored_surface h self = Inr sd"
    and p: "p < length Ps"
    and fold: "fold_ll E sd (Ps ! p) = (ph, P1, P2)"
    and rect: "\<forall>row\<in>set P2. length row = length (hd P2)"
  shows "\<exists>a res k i j qp ql.
           r = RefSearchData a \<and> get_sdata h' a = Inr res \<and>
           np_argmax (concat P2) = Inr k \<and> unravel_index k (shape2 P2) = (i, j) \<and>
           i < length P2 \<and> j < length (P2 ! i) \<and>
           (\<forall>i'<length P2. \<forall>j'<length (P2 ! i'). \<not> flt (P2 ! i ! j) (P2 ! i' ! j')) \<and>
           i < length ph \<and> j < length (Ds sd) \<and>
           Q_params res = Some qp \<and> qp ! p = [fmul (ph ! i) (Ps ! p), Ds sd ! j, Ps ! p] \<and>
           Q_ll res = Some ql \<and> ql ! p = fsub (P2 ! i ! j) (np_mean (concat P2))"
proof -
  from periodic_search_Inr [OF run] sd obtain nu rs where
    rs: "mapM (period_body E nu sd) Ps = Inr rs" and
    r: "r = RefSearchData (length (sdatas h))" and
    h': "h' = h\<lparr>sdatas := sdatas h @
                 [sd\<lparr>periods := Some Ps,
                     Q_snr := Some (map fst rs),
                     Q_ll := Some (map (\<lambda>r. fst (snd r)) rs),
                     Q_params := Some (map (\<lambda>r. snd (snd r)) rs)\<rparr>]\<rparr>"
    by (auto simp: stored_surface_Inr)
  let ?res = "sd\<lparr>periods := Some Ps,
                     Q_snr := Some (map fst rs),
                     Q_ll := Some (map (\<lambda>r. fst (snd r)) rs),
                     Q_params := Some (map (\<lambda>r. snd (snd r)) rs)\<rparr>"
  have got: "get_sdata h' (length (sdatas h)) = Inr ?res"
    using h' by (simp add: get_sdata_def)
  have lrs: "length rs = length Ps" using mapM_length [OF rs] .
  obtain s m row where rp: "rs ! p = (s, m, row)" by (cases "rs ! p")
  have "period_body E nu sd (Ps ! p) = Inr (s, m, row)"
    using mapM_nth [OF rs p] rp by simp
  from period_body_Inr [OF this fold] obtain k i j where
    k: "np_argmax (concat P2) = Inr k" and ij: "unravel_index k (shape2 P2) = (i, j)" and
    iph: "i < length ph" and jD: "j < length (Ds sd)" and
    i: "i < length P2" and j: "j < length (P2 ! i)" and
    m: "m = fsub (P2 ! i ! j) (np_mean (concat P2))" and
    row: "row = [fmul (ph ! i) (Ps ! p), Ds sd ! j, Ps ! p]"
    by blast
  from np_argmax_max [OF k] have klen: "k < length (concat P2)"
    and kmax: "\<forall>y\<in>set (concat P2). \<not> flt (concat P2 ! k) y"
    by simp_all
  have ne: "P2 \<noteq> []" using i by auto
  with ij have ij': "i = k div length (hd P2)" "j = k mod length (hd P2)"
    by (simp_all add: unravel_index_def shape2_def)
  from concat_nth_rect [OF rect klen] ij' have best: "concat P2 ! k = P2 ! i ! j"
    by simp
  have maxi: "\<forall>i'<length P2. \<forall>j'<length (P2 ! i'). \<not> flt (P2 ! i ! j) (P2 ! i' ! j')"
  proof (intro allI impI)
    fix i' j' assume "i' < length P2" "j' < length (P2 ! i')"
    then have "P2 ! i' ! j' \<in> set (concat P2)" by (rule nth_nth_in_concat)
    with kmax have "\<not> flt (concat P2 ! k) (P2 ! i' ! j')" by (rule bspec)
    then show "\<not> flt (P2 ! i ! j) (P2 ! i' ! j')" unfolding best .
  qed
  have qp: "map (\<lambda>r. snd (snd r)) rs ! p = row" and ql: "map (\<lambda>r. fst (snd r)) rs ! p = m"
    using rp p lrs by simp_all
  from r got k ij i j maxi iph jD qp ql m row show ?thesis
    by (intro exI [of _ "length (sdatas h)"] exI [of _ ?res] exI [of _ k] exI [of _ i]
        exI [of _ j] exI [of _ "map (\<lambda>r. snd (snd r)) rs"]
        exI [of _ "map (\<lambda>r. fst (snd r)) rs"]) simp
qed

theorem periodic_search_best_cell_witness:
  "periodic_search ex_env ex_h1 0 ex_periods = Inr (RefSearchData 1, ex_h2) \<and>
   fold_ll ex_env ex_sd (ex_periods ! 0) = (ex_t0s, ll ex_sd, [[Fin 1], [Fin 5], [Fin 1]]) \<and>
   (\<exists>res qp ql. get_sdata ex_h2 1 = Inr res \<and>
      Q_params res = Some qp \<and> qp ! 0 = [Fin 1, Fin 1, Fin 1] \<and>
      Q_ll res = Some ql \<and> ql ! 0 = Fin (8 / 3))"
proof -
  have fold: "fold_ll ex_env ex_sd (ex_periods ! 0) = (ex_t0s, ll ex_sd, [[Fin 1], [Fin 5], [Fin 1]])"
    by (simp add: ex_periods_def ex_env_def ex_sd_def)
  have rect: "\<forall>row\<in>set [[Fin 1], [Fin 5], [Fin 1]]. length row = length (hd [[Fin 1], [Fin 5], [Fin 1]])"
    by simp
  have p: "0 < length ex_periods" by (simp add: ex_periods_def)
  from periodic_search_best_cell [OF ex_periodic_search ex_stored p fold rect]
  obtain a res k i j qp ql where
    a: "RefSearchData 1 = RefSearchData a" and res: "get_sdata ex_h2 a = Inr res" and
    k: "np_argmax (concat [[Fin 1], [Fin 5], [Fin 1]]) = Inr k" and
    ij: "unravel_index k (shape2 [[Fin 1], [Fin 5], [Fin 1]]) = (i, j)" and
    qp: "Q_params res = Some qp" "qp ! 0 = [fmul (ex_t0s ! i) (ex_periods ! 0), Ds ex_sd ! j, ex_periods ! 0]" and
    ql: "Q_ll res = Some ql"
      "ql ! 0 = fsub ([[Fin 1], [Fin 5], [Fin 1]] ! i ! j) (np_mean (concat [[Fin 1], [Fin 5], [Fin 1]]))"
    by blast
  from k have k1: "k = 1" by (simp add: np_argmax_def isnan_def)
  with ij have i1: "i = 1" and j0: "j = 0" by (simp_all add: unravel_index_def shape2_def)
  have "qp ! 0 = [Fin 1, Fin 1, Fin 1]"
    using qp(2) by (simp add: i1 j0 ex_t0s_def ex_periods_def ex_sd_def ex_Ds_def)
  moreover have "ql ! 0 = Fin (8 / 3)"
    using ql(2) by (simp add: i1 j0 np_mean_def fsub_def)
  ultimately show ?thesis
    using ex_periodic_search fold a res qp(1) ql(1) by auto
qed

section \<open>One record per period\<close>

lemma ex_fold_p:
  "fold_ll ex_env_p ex_sd P = (ex_t0s, ll ex_sd, map (map (\<lambda>x. fmul x P)) (ll ex_sd))"
  by (simp add: ex_env_p_def ex_env_def ex_sd_def)

lemma ex_transit_p: "transit ex_env_p = ex_box"
  by (simp add: ex_env_p_def ex_env_def)

lemma ex_snr_p1:
  "snr ex_env_p (ex_nu\<lparr>search_data := Some 0\<rparr>) (Fin 1) (Fin 1) (Some (Fin 1)) = Inr (Fin 3)"
  by (simp add: snr_def depth_def solve_def get_eval_m_def ex_nu_def ex_transit_p ex_box_def
      fsub_def ex_eval_def index_last_def)

lemma ex_snr_p2:
  "snr ex_env_p (ex_nu\<lparr>search_data := Some 0\<rparr>) (Fin (3 / 2)) (Fin 1) (Some (Fin (3 / 2)))
     = Inr (Fin 3)"
  by (simp add: snr_def depth_def solve_def get_eval_m_def ex_nu_def ex_transit_p ex_box_def
      fsub_def ex_eval_def index_last_def)

lemma ex_period_body_p1:
  "period_body ex_env_p (ex_nu\<lparr>search_data := Some 0\<rparr>) ex_sd (Fin 1) =
     Inr (Fin 3, Fin (8 / 3), [Fin 1, Fin 1, Fin 1])"
  unfolding period_body_def ex_fold_p
  by (simp add: ex_sd_def ex_t0s_def ex_Ds_def np_argmax_def isnan_def unravel_index_def
      shape2_def np_index_def np_index2_def ex_snr_p1 np_mean_def fsub_def Let_def)

lemma ex_period_body_p2:
  "period_body ex_env_p (ex_nu\<lparr>search_data := Some 0\<rparr>) ex_sd (Fin (3 / 2)) =
     Inr (Fin 3, Fin 4, [Fin (3 / 2), Fin 1, Fin (3 / 2)])"
  unfolding period_body_def ex_fold_p
  by (simp add: ex_sd_def ex_t0s_def ex_Ds_def np_argmax_def isnan_def unravel_index_def
      shape2_def np_index_def np_index2_def ex_snr_p2 np_mean_def fsub_def Let_def)

text \<open>C4: when the loop body raises for no period, the periodic search returns a
  \<^verbatim>\<open>SearchData\<close> whose \<open>Q_snr\<close>, \<open>Q_ll\<close> and \<open>Q_params\<close> have exactly one entry per input
  period, in input order: the entry at position \<open>p\<close> is the detection of the period at
  position \<open>p\<close>. With \<open>(phase, P1, P2)\<close> the fold of the stored surface at that period and
  \<open>(i, j)\<close> the cell that \<^verbatim>\<open>np.argmax\<close> and \<^verbatim>\<open>np.unravel_index\<close> give for \<open>P2\<close>, its row is
  \<open>(Ti, Dj, P)\<close> with \<open>Ti = phase[i] * P\<close> and \<open>Dj = Ds[j]\<close>, and its signal-to-noise ratio
  is not a value of the grids of the linear search: it is the last coefficient over the
  square root of the last diagonal entry of the covariance that the model evaluator returns
  for the periodic template at \<open>(Ti, Dj, P)\<close>, with the period given.\<close>

theorem periodic_search_records:
  assumes nu: "get_session h self = Inr nu" and sd: "get_search_data h nu = Inr sd"
    and body: "\<forall>P\<in>set Ps. \<not> isl (period_body E nu sd P)"
  shows "\<exists>a h' res qs ql qp.
           periodic_search E h self Ps = Inr (RefSearchData a, h') \<and>
           get_sdata h' a = Inr res \<and> periods res = Some Ps \<and>
           Q_snr res = Some qs \<and> Q_ll res = Some ql \<and> Q_params res = Some qp \<and>
           length qs = length Ps \<and> length ql = length Ps \<and> length qp = length Ps \<and>
           (\<forall>p<length Ps. \<exists>ph P1 P2 k i j f l w v.
              fold_ll E sd (Ps ! p) = (ph, P1, P2) \<and>
              np_argmax (concat P2) = Inr k \<and> unravel_index k (shape2 P2) = (i, j) \<and>
              i < length ph \<and> j < length (Ds sd) \<and>
              qp ! p = [fmul (ph ! i) (Ps ! p), Ds sd ! j, Ps ! p] \<and>
              eval_m nu = Some f \<and>
              f (transit E (time nu) (fmul (ph ! i) (Ps ! p)) (Ds sd ! j) (Fin 1) (Some (Ps ! p)))
                = (l, w, v) \<and>
              qs ! p = fdiv (last w) (fsqrt (last (last v))) \<and>
              ql ! p = fsub (P2 ! i ! j) (np_mean (concat P2)))"
proof -
  from body have "\<And>P. P \<in> set Ps \<Longrightarrow> \<not> isl (period_body E nu sd P)" by blast
  from mapM_total [of Ps "period_body E nu sd", OF this]
  obtain rs where rs: "mapM (period_body E nu sd) Ps = Inr rs" by blast
  let ?res = "sd\<lparr>periods := Some Ps,
                     Q_snr := Some (map fst rs),
                     Q_ll := Some (map (\<lambda>r. fst (snd r)) rs),
                     Q_params := Some (map (\<lambda>r. snd (snd r)) rs)\<rparr>"
  let ?h' = "h\<lparr>sdatas := sdatas h @ [?res]\<rparr>"
  have run: "periodic_search E h self Ps = Inr (RefSearchData (length (sdatas h)), ?h')"
    using nu sd rs by (simp add: periodic_search_eq)
  have got: "get_sdata ?h' (length (sdatas h)) = Inr ?res"
    by (simp add: get_sdata_def)
  have lrs: "length rs = length Ps" using mapM_length [OF rs] .
  have each: "\<exists>ph P1 P2 k i j f l w v.
              fold_ll E sd (Ps ! p) = (ph, P1, P2) \<and>
              np_argmax (concat P2) = Inr k \<and> unravel_index k (shape2 P2) = (i, j) \<and>
              i < length ph \<and> j < length (Ds sd) \<and>
              map (\<lambda>r. snd (snd r)) rs ! p = [fmul (ph ! i) (Ps ! p), Ds sd ! j, Ps ! p] \<and>
              eval_m nu = Some f \<and>
              f (transit E (time nu) (fmul (ph ! i) (Ps ! p)) (Ds sd ! j) (Fin 1) (Some (Ps ! p)))
                = (l, w, v) \<and>
              map fst rs ! p = fdiv (last w) (fsqrt (last (last v))) \<and>
              map (\<lambda>r. fst (snd r)) rs ! p = fsub (P2 ! i ! j) (np_mean (concat P2))"
    if p: "p < length Ps" for p
  proof -
    obtain s m row where rp: "rs ! p = (s, m, row)" by (cases "rs ! p")
    obtain ph P1 P2 where fold: "fold_ll E sd (Ps ! p) = (ph, P1, P2)"
      by (cases "fold_ll E sd (Ps ! p)")
    have "period_body E nu sd (Ps ! p) = Inr (s, m, row)"
      using mapM_nth [OF rs p] rp by simp
    from period_body_Inr [OF this fold] obtain k i j where
      k: "np_argmax (concat P2) = Inr k" and ij: "unravel_index k (shape2 P2) = (i, j)" and
      iph: "i < length ph" and jD: "j < length (Ds sd)" and
      s: "snr E nu (fmul (ph ! i) (Ps ! p)) (Ds sd ! j) (Some (Ps ! p)) = Inr s" and
      m: "m = fsub (P2 ! i ! j) (np_mean (concat P2))" and
      row: "row = [fmul (ph ! i) (Ps ! p), Ds sd ! j, Ps ! p]"
      by blast
    from s obtain f l w v where
      f: "eval_m nu = Some f" and
      fm: "f (transit E (time nu) (fmul (ph ! i) (Ps ! p)) (Ds sd ! j) (Fin 1) (Some (Ps ! p)))
             = (l, w, v)" and
      sv: "s = fdiv (last w) (fsqrt (last (last v)))"
      unfolding snr_eq_Inr by blast
    have "map (\<lambda>r. snd (snd r)) rs ! p = row" "map fst rs ! p = s"
      "map (\<lambda>r. fst (snd r)) rs ! p = m"
      using rp p lrs by simp_all
    with fold k ij iph jD row f fm sv m show ?thesis by blast
  qed
  from run got lrs each show ?thesis
    by (intro exI [of _ "length (sdatas h)"] exI [of _ ?h'] exI [of _ ?res]
        exI [of _ "map fst rs"] exI [of _ "map (\<lambda>r. fst (snd r)) rs"]
        exI [of _ "map (\<lambda>r. snd (snd r)) rs"]) simp
qed

text \<open>The concrete session searched at the periods 1 and 3/2, in this order. The second
  period has the larger \<open>max_ll\<close>; it stays second.\<close>

theorem periodic_search_records_witness:
  "get_session ex_h1 0 = Inr (ex_nu\<lparr>search_data := Some 0\<rparr>) \<and>
   get_search_data ex_h1 (ex_nu\<lparr>search_data := Some 0\<rparr>) = Inr ex_sd \<and>
   ex_periods2 = [Fin 1, Fin (3 / 2)] \<and>
   (\<exists>a h' res qs ql qp.
      periodic_search ex_env_p ex_h1 0 ex_periods2 = Inr (RefSearchData a, h') \<and>
      get_sdata h' a = Inr res \<and> periods res = Some ex_periods2 \<and>
      Q_snr res = Some qs \<and> Q_ll res = Some ql \<and> Q_params res = Some qp \<and>
      length qs = 2 \<and> length ql = 2 \<and> length qp = 2 \<and>
      qp ! 0 = [Fin 1, Fin 1, Fin 1] \<and> qs ! 0 = Fin 3 \<and> ql ! 0 = Fin (8 / 3) \<and>
      qp ! 1 = [Fin (3 / 2), Fin 1, Fin (3 / 2)] \<and> qs ! 1 = Fin 3 \<and> ql ! 1 = Fin 4)"
proof -
  let ?nu = "ex_nu\<lparr>search_data := Some 0\<rparr>"
  have body: "\<forall>P\<in>set ex_periods2. \<not> isl (period_body ex_env_p ?nu ex_sd P)"
    by (simp add: ex_periods2_def ex_period_body_p1 ex_period_body_p2)
  from periodic_search_records [OF ex_get_session1 ex_get_search_data1 body]
  obtain a h' res qs ql qp where
    run: "periodic_search ex_env_p ex_h1 0 ex_periods2 = Inr (RefSearchData a, h')" and
    res: "get_sdata h' a = Inr res" "periods res = Some ex_periods2"
      "Q_snr res = Some qs" "Q_ll res = Some ql" "Q_params res = Some qp" and
    len: "length qs = length ex_periods2" "length ql = length ex_periods2"
      "length qp = length ex_periods2" and
    per: "\<forall>p<length ex_periods2. \<exists>ph P1 P2 k i j f l w v.
              fold_ll ex_env_p ex_sd (ex_periods2 ! p) = (ph, P1, P2) \<and>
              np_argmax (concat P2) = Inr k \<and> unravel_index k (shape2 P2) = (i, j) \<and>
              i < length ph \<and> j < length (Ds ex_sd) \<and>
              qp ! p = [fmul (ph ! i) (ex_periods2 ! p), Ds ex_sd ! j, ex_periods2 ! p] \<and>
              eval_m ?nu = Some f \<and>
              f (transit ex_env_p (time ?nu) (fmul (ph ! i) (ex_periods2 ! p)) (Ds ex_sd ! j)
                   (Fin 1) (Some (ex_periods2 ! p))) = (l, w, v) \<and>
              qs ! p = fdiv (last w) (fsqrt (last (last v))) \<and>
              ql ! p = fsub (P2 ! i ! j) (np_mean (concat P2))"
    by blast
  have l2: "length ex_periods2 = 2" by (simp add: ex_periods2_def)
  have tm: "time ?nu = [Fin 0, Fin 1, Fin 2]" and ev: "eval_m ?nu = Some ex_eval"
    by (simp_all add: ex_nu_def)
  have first: "qp ! 0 = [Fin 1, Fin 1, Fin 1] \<and> qs ! 0 = Fin 3 \<and> ql ! 0 = Fin (8 / 3)"
  proof -
    from per l2 obtain ph P1 P2 k i j f l w v where
      fold: "fold_ll ex_env_p ex_sd (ex_periods2 ! 0) = (ph, P1, P2)" and
      k: "np_argmax (concat P2) = Inr k" and ij: "unravel_index k (shape2 P2) = (i, j)" and
      row: "qp ! 0 = [fmul (ph ! i) (ex_periods2 ! 0), Ds ex_sd ! j, ex_periods2 ! 0]" and
      f: "eval_m ?nu = Some f" and
      fm: "f (transit ex_env_p (time ?nu) (fmul (ph ! i) (ex_periods2 ! 0)) (Ds ex_sd ! j)
                   (Fin 1) (Some (ex_periods2 ! 0))) = (l, w, v)" and
      s: "qs ! 0 = fdiv (last w) (fsqrt (last (last v)))" and
      m: "ql ! 0 = fsub (P2 ! i ! j) (np_mean (concat P2))"
      by (metis zero_less_numeral)
    from fold have "ph = ex_t0s \<and> P2 = map (map (\<lambda>x. fmul x (ex_periods2 ! 0))) (ll ex_sd)"
      unfolding ex_fold_p by auto
    then have ph: "ph = ex_t0s" and P2: "P2 = [[Fin 1], [Fin 5], [Fin 1]]"
      by (simp_all add: ex_periods2_def ex_sd_def)
    from k have k1: "k = 1" by (simp add: P2 np_argmax_def isnan_def)
    with ij have i1: "i = 1" and j0: "j = 0"
      by (simp_all add: P2 unravel_index_def shape2_def)
    from f ev have fe: "f = ex_eval" by simp
    have r: "qp ! 0 = [Fin 1, Fin 1, Fin 1]"
      using row by (simp add: ph i1 j0 ex_t0s_def ex_periods2_def ex_sd_def ex_Ds_def)
    from fm have "w = [Fin 1, Fin 6] \<and> v = [[Fin 1, Fin 0], [Fin 0, Fin 4]]"
      by (auto simp: fe ph i1 j0 tm ex_t0s_def ex_periods2_def ex_sd_def ex_Ds_def ex_transit_p
          ex_box_def fsub_def ex_eval_def)
    with s have "qs ! 0 = Fin 3" by simp
    moreover have "ql ! 0 = Fin (8 / 3)"
      using m by (simp add: P2 i1 j0 np_mean_def fsub_def)
    ultimately show ?thesis using r by simp
  qed
  have second: "qp ! 1 = [Fin (3 / 2), Fin 1, Fin (3 / 2)] \<and> qs ! 1 = Fin 3 \<and> ql ! 1 = Fin 4"
  proof -
    from per l2 obtain ph P1 P2 k i j f l w v where
      fold: "fold_ll ex_env_p ex_sd (ex_periods2 ! 1) = (ph, P1, P2)" and
      k: "np_argmax (concat P2) = Inr k" and ij: "unravel_index k (shape2 P2) = (i, j)" and
      row: "qp ! 1 = [fmul (ph ! i) (ex_periods2 ! 1), Ds ex_sd ! j, ex_periods2 ! 1]" and
      f: "eval_m ?nu = Some f" and
      fm: "f (transit ex_env_p (time ?nu) (fmul (ph ! i) (ex_periods2 ! 1)) (Ds ex_sd ! j)
                   (Fin 1) (Some (ex_periods2 ! 1))) = (l, w, v)" and
      s: "qs ! 1 = fdiv (last w) (fsqrt (last (last v)))" and
      m: "ql ! 1 = fsub (P2 ! i ! j) (np_mean (concat P2))"
      by (metis one_less_numeral_iff semiring_norm(76))
    from fold have "ph = ex_t0s \<and> P2 = map (map (\<lambda>x. fmul x (ex_periods2 ! 1))) (ll ex_sd)"
      unfolding ex_fold_p by auto
    then have ph: "ph = ex_t0s"
      and P2: "P2 = [[Fin (3 / 2)], [Fin (15 / 2)], [Fin (3 / 2)]]"
      by (simp_all add: ex_periods2_def ex_sd_def)
    from k have k1: "k = 1" by (simp add: P2 np_argmax_def isnan_def)
    with ij have i1: "i = 1" and j0: "j = 0"
      by (simp_all add: P2 unravel_index_def shape2_def)
    from f ev have fe: "f = ex_eval" by simp
    have r: "qp ! 1 = [Fin (3 / 2), Fin 1, Fin (3 / 2)]"
      using row by (simp add: ph i1 j0 ex_t0s_def ex_periods2_def ex_sd_def ex_Ds_def)
    from fm have "w = [Fin 1, Fin 6] \<and> v = [[Fin 1, Fin 0], [Fin 0, Fin 4]]"
      by (auto simp: fe ph i1 j0 tm ex_t0s_def ex_periods2_def ex_sd_def ex_Ds_def ex_transit_p
          ex_box_def fsub_def ex_eval_def)
    with s have "qs ! 1 = Fin 3" by simp
    moreover have "ql ! 1 = Fin 4"
      using m by (simp add: P2 i1 j0 np_mean_def fsub_def)
    ultimately show ?thesis using r by simp
  qed
  have "ex_periods2 = [Fin 1, Fin (3 / 2)]" by (simp add: ex_periods2_def)
  with run res len l2 first second ex_get_session1 ex_get_search_data1 show ?thesis
    by (intro conjI exI [of _ a] exI [of _ h'] exI [of _ res] exI [of _ qs] exI [of _ ql]
        exI [of _ qp]) simp_all
qed

section \<open>The periodic search leaves the stored surface alone\<close>

text \<open>C8: after a periodic search the sessions are as before, every \<^verbatim>\<open>SearchData\<close> object
  that existed is unchanged, and the session still holds the same surface (the same \<open>t0s\<close>,
  \<open>Ds\<close>, \<open>ll\<close>, \<open>z\<close>, \<open>vz\<close>, \<open>ll0\<close>). The results are written to one new object, the copy,
  which is the value returned; the copy carries the surface of the original.\<close>

theorem periodic_search_frame:
  assumes run: "periodic_search E h self Ps = Inr (r, h')"
    and sd: "stored_surface h self = Inr sd"
  shows "sessions h' = sessions h \<and>
         take (length (sdatas h)) (sdatas h') = sdatas h \<and>
         stored_surface h' self = Inr sd \<and>
         (\<exists>res. r = RefSearchData (length (sdatas h)) \<and>
            sdatas h' = sdatas h @ [res] \<and>
            t0s res = t0s sd \<and> Ds res = Ds sd \<and> ll res = ll sd \<and> z res = z sd \<and>
            vz res = vz sd \<and> ll0 res = ll0 sd \<and> periods res = Some Ps)"
proof -
  from periodic_search_Inr [OF run] sd obtain nu rs where
    nu: "get_session h self = Inr nu" and sdn: "get_search_data h nu = Inr sd" and
    r: "r = RefSearchData (length (sdatas h))" and
    h': "h' = h\<lparr>sdatas := sdatas h @
                 [sd\<lparr>periods := Some Ps,
                     Q_snr := Some (map fst rs),
                     Q_ll := Some (map (\<lambda>r. fst (snd r)) rs),
                     Q_params := Some (map (\<lambda>r. snd (snd r)) rs)\<rparr>]\<rparr>"
    by (auto simp: stored_surface_Inr)
  have "get_session h' self = Inr nu"
    using nu h' by (auto simp: get_session_def split: if_splits)
  moreover have "get_search_data h' nu = Inr sd"
    unfolding h' using sdn by (rule get_search_data_append)
  ultimately have "stored_surface h' self = Inr sd"
    by (simp add: stored_surface_def)
  with r h' show ?thesis by simp
qed

theorem periodic_search_frame_witness:
  "periodic_search ex_env ex_h1 0 ex_periods = Inr (RefSearchData 1, ex_h2) \<and>
   stored_surface ex_h1 0 = Inr ex_sd \<and>
   sessions ex_h2 = sessions ex_h1 \<and>
   take (length (sdatas ex_h1)) (sdatas ex_h2) = sdatas ex_h1 \<and>
   stored_surface ex_h2 0 = Inr ex_sd"
  using periodic_search_frame [OF ex_periodic_search ex_stored] ex_periodic_search ex_stored
  by simp

section \<open>Direct evaluation against the stored surface\<close>












section \<open>Masking\<close>

lemma filter_mask_nths:
  "length msk = length xs \<Longrightarrow>
   map fst (filter snd (zip xs msk)) = nths xs {k. k < length msk \<and> msk ! k}"
proof (induction xs arbitrary: msk)
  case Nil
  then show ?case by simp
next
  case (Cons x xs)
  then obtain b bs where msk: "msk = b # bs" and len: "length bs = length xs"
    by (cases msk) auto
  have "{j. Suc j \<in> {k. k < length (b # bs) \<and> (b # bs) ! k}} = {k. k < length bs \<and> bs ! k}"
    by auto
  then show ?case
    using Cons.IH [OF len] msk by (simp add: nths_Cons)
qed

lemma bool_index_eq_Inr:
  "bool_index xs msk = Inr ys \<longleftrightarrow>
     length msk = length xs \<and> ys = nths xs {k. k < length msk \<and> msk ! k}"
  by (auto simp: bool_index_def filter_mask_nths)

lemma far_from_transit_indices:
  "{k. k < length (far_from_transit ph D) \<and> far_from_transit ph D ! k} = far_indices ph D"
  by (auto simp: far_from_transit_def far_indices_def)

lemma bool_index_far:
  "bool_index xs (far_from_transit ph D) = Inr ys \<Longrightarrow> ys = nths xs (far_indices ph D)"
  by (simp add: bool_index_eq_Inr far_from_transit_indices)

lemma mapM_bool_index_far:
  assumes "mapM (\<lambda>row. bool_index row (far_from_transit ph D)) M = Inr M'"
  shows "M' = map (\<lambda>row. nths row (far_indices ph D)) M"
proof (rule nth_equalityI)
  show "length M' = length (map (\<lambda>row. nths row (far_indices ph D)) M)"
    using mapM_length [OF assms] by simp
next
  fix i assume "i < length M'"
  then have i: "i < length M" using mapM_length [OF assms] by simp
  from mapM_nth [OF assms i] have "M' ! i = nths (M ! i) (far_indices ph D)"
    by (rule bool_index_far)
  with i show "M' ! i = map (\<lambda>row. nths row (far_indices ph D)) M ! i" by simp
qed

lemma compute_L_fields:
  "time (compute_L E nu) = time nu" "flux (compute_L E nu) = flux nu"
  "error (compute_L E nu) = error nu" "kernel (compute_L E nu) = kernel nu"
  "X (compute_L E nu) = X nu" "search_data (compute_L E nu) = search_data nu"
  by (simp_all add: compute_L_def Let_def)

lemma Nuance_init_Inr:
  assumes "Nuance_init E h time' flux' error' kernel' (Some M) compute mean' = Inr (b, h3)"
  shows "\<exists>nu0. b = length (sessions h) \<and> h3 = h\<lparr>sessions := sessions h @ [nu0]\<rparr> \<and>
           time nu0 = time' \<and> flux nu0 = flux' \<and> error nu0 = error' \<and>
           kernel nu0 = kernel' \<and> X nu0 = M \<and> search_data nu0 = None"
  using assms
  by (auto simp: Nuance_init_def Let_def ebind_eq_Inr compute_L_fields split: if_splits)

lemma masked_error_Inr:
  assumes "(case err of
              Some (ArrayNoise e) \<Rightarrow>
                ebind (bool_index e (far_from_transit ph D)) (\<lambda>e'. Inr (Some (ArrayNoise e')))
            | other \<Rightarrow> Inr other) = Inr err'"
  shows "err' = (case err of
                   Some (ArrayNoise e) \<Rightarrow> Some (ArrayNoise (nths e (far_indices ph D)))
                 | other \<Rightarrow> other)"
  using assms
  by (auto simp: ebind_eq_Inr dest: bool_index_far split: option.splits noise.splits)

lemma mask_nu_Inr:
  assumes run: "mask_nu E h self t0 D P = Inr (r, h')"
    and nu: "get_session h self = Inr nu" and sd: "get_search_data h nu = Inr sd"
  shows "\<exists>t0s2 ll2 z2 vz2 error2 time2 flux2 X2 b h3.
           bool_index (t0s sd) (far_from_transit (phase E (t0s sd) t0 P) D) = Inr t0s2 \<and>
           bool_index (ll sd) (far_from_transit (phase E (t0s sd) t0 P) D) = Inr ll2 \<and>
           bool_index (z sd) (far_from_transit (phase E (t0s sd) t0 P) D) = Inr z2 \<and>
           bool_index (vz sd) (far_from_transit (phase E (t0s sd) t0 P) D) = Inr vz2 \<and>
           (case error nu of
              Some (ArrayNoise e) \<Rightarrow>
                ebind (bool_index e (far_from_transit (phase E (time nu) t0 P) D))
                  (\<lambda>e'. Inr (Some (ArrayNoise e')))
            | other \<Rightarrow> Inr other) = Inr error2 \<and>
           bool_index (time nu) (far_from_transit (phase E (time nu) t0 P) D) = Inr time2 \<and>
           bool_index (flux nu) (far_from_transit (phase E (time nu) t0 P) D) = Inr flux2 \<and>
           mapM (\<lambda>row. bool_index row (far_from_transit (phase E (time nu) t0 P) D)) (X nu)
             = Inr X2 \<and>
           Nuance_init E
             (h\<lparr>sdatas := sdatas h @
                  [sd\<lparr>llv := None, llc := None, periods := None,
                      t0s := t0s2, ll := ll2, z := z2, vz := vz2\<rparr>]\<rparr>)
             time2 flux2 error2 (kernel nu) (Some X2) True (Fin 0) = Inr (b, h3) \<and>
           r = RefNuance b \<and>
           h' = h3\<lparr>sessions :=
                  (sessions h3)[b := (sessions h3 ! b)\<lparr>search_data := Some (length (sdatas h))\<rparr>]\<rparr>"
proof -
  let ?msk = "far_from_transit (phase E (t0s sd) t0 P) D"
  let ?msk2 = "far_from_transit (phase E (time nu) t0 P) D"
  from run nu sd obtain t0s2 where a1: "bool_index (t0s sd) ?msk = Inr t0s2"
    by (cases "bool_index (t0s sd) ?msk")
      (simp_all add: mask_nu_def SearchData_copy_def Let_def)
  from run nu sd a1 obtain ll2 where a2: "bool_index (ll sd) ?msk = Inr ll2"
    by (cases "bool_index (ll sd) ?msk")
      (simp_all add: mask_nu_def SearchData_copy_def Let_def)
  from run nu sd a1 a2 obtain z2 where a3: "bool_index (z sd) ?msk = Inr z2"
    by (cases "bool_index (z sd) ?msk")
      (simp_all add: mask_nu_def SearchData_copy_def Let_def)
  from run nu sd a1 a2 a3 obtain vz2 where a4: "bool_index (vz sd) ?msk = Inr vz2"
    by (cases "bool_index (vz sd) ?msk")
      (simp_all add: mask_nu_def SearchData_copy_def Let_def)
  let ?err = "(case error nu of
              Some (ArrayNoise e) \<Rightarrow>
                ebind (bool_index e ?msk2) (\<lambda>e'. Inr (Some (ArrayNoise e')))
            | other \<Rightarrow> Inr other)"
  note pre = run nu sd a1 a2 a3 a4
  from pre obtain error2 where a5: "?err = Inr error2"
    by (cases ?err) (simp_all add: mask_nu_def SearchData_copy_def Let_def)
  from pre a5 obtain time2 where a6: "bool_index (time nu) ?msk2 = Inr time2"
    by (cases "bool_index (time nu) ?msk2")
      (simp_all add: mask_nu_def SearchData_copy_def Let_def)
  from pre a5 a6 obtain flux2 where a7: "bool_index (flux nu) ?msk2 = Inr flux2"
    by (cases "bool_index (flux nu) ?msk2")
      (simp_all add: mask_nu_def SearchData_copy_def Let_def)
  from pre a5 a6 a7 obtain X2 where a8: "mapM (\<lambda>row. bool_index row ?msk2) (X nu) = Inr X2"
    by (cases "mapM (\<lambda>row. bool_index row ?msk2) (X nu)")
      (simp_all add: mask_nu_def SearchData_copy_def Let_def)
  let ?h2 = "h\<lparr>sdatas := sdatas h @
                  [sd\<lparr>llv := None, llc := None, periods := None,
                      t0s := t0s2, ll := ll2, z := z2, vz := vz2\<rparr>]\<rparr>"
  let ?init = "Nuance_init E ?h2 time2 flux2 error2 (kernel nu) (Some X2) True (Fin 0)"
  from pre a5 a6 a7 a8 obtain b h3 where a9: "?init = Inr (b, h3)"
    by (cases ?init) (auto simp: mask_nu_def SearchData_copy_def Let_def)
  from pre a5 a6 a7 a8 a9 have
    "r = RefNuance b \<and>
     h' = h3\<lparr>sessions :=
            (sessions h3)[b := (sessions h3 ! b)\<lparr>search_data := Some (length (sdatas h))\<rparr>]\<rparr>"
    by (auto simp: mask_nu_def SearchData_copy_def Let_def)
  with a1 a2 a3 a4 a5 a6 a7 a8 a9 show ?thesis by blast
qed

section \<open>The concrete masking\<close>

lemma ex_mask:
  "mask_nu ex_env ex_h1 0 (Fin 1) (Fin (1 / 4)) (Fin 10) = Inr (RefNuance 1, ex_h3)"
proof -
  have ph: "phase ex_env [Fin 0, Fin 1, Fin 2] (Fin 1) (Fin 10) = [Fin (- 1), Fin 0, Fin 1]"
    by (simp add: ex_env_def fsub_def)
  have msk: "far_from_transit [Fin (- 1), Fin 0, Fin 1] (Fin (1 / 4)) = [True, False, True]"
    by (simp add: far_from_transit_def)
  have gp: "tinygp_GaussianProcess ex_env = (\<lambda>k t d m. Inr ex_gp)"
    by (simp add: ex_env_def)
  show ?thesis
    unfolding mask_nu_def ex_get_session1 ebind_Inr ex_get_search_data1
    by (simp add: SearchData_copy_def ex_sd_def ex_t0s_def ex_nu_def ph msk bool_index_def
        Nuance_init_def py_square_def gp ex_h1_def ex_h3_def ex_masked_def ex_sd_masked_def
        ex_Ds_def)
qed

lemma ex_get_session3: "get_session ex_h3 1 = Inr ex_masked"
  by (simp add: get_session_def ex_h3_def)

section \<open>Masking removes the transit and returns new objects\<close>

text \<open>C9: when \<^verbatim>\<open>mask(t0, D, P)\<close> returns, its value is a new session. The time, flux, error
  array and the columns of the design matrix of the new session are those of the original at
  exactly the positions where the phase of the observation time is farther than \<open>2D\<close> from
  the transit, in order; the epochs and the rows of \<open>ll\<close>, \<open>z\<close>, \<open>vz\<close> of its search surface
  are those of the original surface at exactly the positions where the phase of the grid
  epoch is farther than \<open>2D\<close>; durations and \<open>ll0\<close> are kept. The original session and its
  search data are unchanged, as is every object that existed before the call.\<close>

theorem mask_removes_transit:
  assumes run: "mask_nu E h self t0 D P = Inr (r, h')"
    and nu: "get_session h self = Inr nu" and sd: "get_search_data h nu = Inr sd"
  shows "\<exists>nu' sd'.
           r = RefNuance (length (sessions h)) \<and>
           get_session h' (length (sessions h)) = Inr nu' \<and>
           get_search_data h' nu' = Inr sd' \<and>
           time nu' = nths (time nu) (far_indices (phase E (time nu) t0 P) D) \<and>
           flux nu' = nths (flux nu) (far_indices (phase E (time nu) t0 P) D) \<and>
           error nu' =
             (case error nu of
                Some (ArrayNoise e) \<Rightarrow>
                  Some (ArrayNoise (nths e (far_indices (phase E (time nu) t0 P) D)))
              | other \<Rightarrow> other) \<and>
           X nu' = map (\<lambda>row. nths row (far_indices (phase E (time nu) t0 P) D)) (X nu) \<and>
           t0s sd' = nths (t0s sd) (far_indices (phase E (t0s sd) t0 P) D) \<and>
           ll sd' = nths (ll sd) (far_indices (phase E (t0s sd) t0 P) D) \<and>
           z sd' = nths (z sd) (far_indices (phase E (t0s sd) t0 P) D) \<and>
           vz sd' = nths (vz sd) (far_indices (phase E (t0s sd) t0 P) D) \<and>
           Ds sd' = Ds sd \<and> ll0 sd' = ll0 sd \<and>
           get_session h' self = Inr nu \<and> get_search_data h' nu = Inr sd \<and>
           take (length (sessions h)) (sessions h') = sessions h \<and>
           take (length (sdatas h)) (sdatas h') = sdatas h"
proof -
  let ?KS = "far_indices (phase E (t0s sd) t0 P) D"
  let ?KT = "far_indices (phase E (time nu) t0 P) D"
  from mask_nu_Inr [OF run nu sd] obtain t0s2 ll2 z2 vz2 error2 time2 flux2 X2 b h3 where
    a1: "bool_index (t0s sd) (far_from_transit (phase E (t0s sd) t0 P) D) = Inr t0s2" and
    a2: "bool_index (ll sd) (far_from_transit (phase E (t0s sd) t0 P) D) = Inr ll2" and
    a3: "bool_index (z sd) (far_from_transit (phase E (t0s sd) t0 P) D) = Inr z2" and
    a4: "bool_index (vz sd) (far_from_transit (phase E (t0s sd) t0 P) D) = Inr vz2" and
    a5: "(case error nu of
              Some (ArrayNoise e) \<Rightarrow>
                ebind (bool_index e (far_from_transit (phase E (time nu) t0 P) D))
                  (\<lambda>e'. Inr (Some (ArrayNoise e')))
            | other \<Rightarrow> Inr other) = Inr error2" and
    a6: "bool_index (time nu) (far_from_transit (phase E (time nu) t0 P) D) = Inr time2" and
    a7: "bool_index (flux nu) (far_from_transit (phase E (time nu) t0 P) D) = Inr flux2" and
    a8: "mapM (\<lambda>row. bool_index row (far_from_transit (phase E (time nu) t0 P) D)) (X nu)
             = Inr X2" and
    a9: "Nuance_init E
             (h\<lparr>sdatas := sdatas h @
                  [sd\<lparr>llv := None, llc := None, periods := None,
                      t0s := t0s2, ll := ll2, z := z2, vz := vz2\<rparr>]\<rparr>)
             time2 flux2 error2 (kernel nu) (Some X2) True (Fin 0) = Inr (b, h3)" and
    r: "r = RefNuance b" and
    h': "h' = h3\<lparr>sessions :=
                  (sessions h3)[b := (sessions h3 ! b)\<lparr>search_data := Some (length (sdatas h))\<rparr>]\<rparr>"
    by blast
  let ?sd1 = "sd\<lparr>llv := None, llc := None, periods := None,
                      t0s := t0s2, ll := ll2, z := z2, vz := vz2\<rparr>"
  from Nuance_init_Inr [OF a9] obtain nu0 where
    b: "b = length (sessions h)" and
    h3: "h3 = h\<lparr>sdatas := sdatas h @ [?sd1], sessions := sessions h @ [nu0]\<rparr>" and
    nu0: "time nu0 = time2" "flux nu0 = flux2" "error nu0 = error2" "X nu0 = X2"
    by auto
  let ?nu' = "nu0\<lparr>search_data := Some (length (sdatas h))\<rparr>"
  have h'_eq: "h' = h\<lparr>sdatas := sdatas h @ [?sd1], sessions := sessions h @ [?nu']\<rparr>"
    using h' h3 b by simp
  have self: "self < length (sessions h)" "sessions h ! self = nu"
    using nu by (auto simp: get_session_def split: if_splits)
  have g1: "get_session h' (length (sessions h)) = Inr ?nu'"
    by (simp add: h'_eq get_session_def)
  have g2: "get_search_data h' ?nu' = Inr ?sd1"
    by (simp add: h'_eq get_search_data_def get_sdata_def)
  have g3: "get_session h' self = Inr nu"
    using self by (simp add: h'_eq get_session_def nth_append)
  have g4: "get_search_data h' nu = Inr sd"
    using sd by (auto simp: h'_eq get_search_data_def get_sdata_def nth_append
        split: option.splits if_splits)
  have c1: "t0s2 = nths (t0s sd) ?KS" using a1 by (rule bool_index_far)
  have c2: "ll2 = nths (ll sd) ?KS" using a2 by (rule bool_index_far)
  have c3: "z2 = nths (z sd) ?KS" using a3 by (rule bool_index_far)
  have c4: "vz2 = nths (vz sd) ?KS" using a4 by (rule bool_index_far)
  have c5: "error2 = (case error nu of
                Some (ArrayNoise e) \<Rightarrow> Some (ArrayNoise (nths e ?KT))
              | other \<Rightarrow> other)"
    using a5 by (rule masked_error_Inr)
  have c6: "time2 = nths (time nu) ?KT" using a6 by (rule bool_index_far)
  have c7: "flux2 = nths (flux nu) ?KT" using a7 by (rule bool_index_far)
  have c8: "X2 = map (\<lambda>row. nths row ?KT) (X nu)" using a8 by (rule mapM_bool_index_far)
  have frame: "take (length (sessions h)) (sessions h') = sessions h"
    "take (length (sdatas h)) (sdatas h') = sdatas h"
    by (simp_all add: h'_eq)
  from r b g1 g2 g3 g4 nu0 c1 c2 c3 c4 c5 c6 c7 c8 frame show ?thesis
    by (intro exI [of _ ?nu'] exI [of _ ?sd1]) simp
qed

theorem mask_removes_transit_witness:
  "mask_nu ex_env ex_h1 0 (Fin 1) (Fin (1 / 4)) (Fin 10) = Inr (RefNuance 1, ex_h3) \<and>
   get_session ex_h1 0 = Inr (ex_nu\<lparr>search_data := Some 0\<rparr>) \<and>
   get_search_data ex_h1 (ex_nu\<lparr>search_data := Some 0\<rparr>) = Inr ex_sd \<and>
   (\<exists>nu'. get_session ex_h3 1 = Inr nu' \<and>
      time nu' = nths [Fin 0, Fin 1, Fin 2]
                   (far_indices (phase ex_env [Fin 0, Fin 1, Fin 2] (Fin 1) (Fin 10)) (Fin (1 / 4))) \<and>
      time nu' = [Fin 0, Fin 2]) \<and>
   get_session ex_h3 0 = Inr (ex_nu\<lparr>search_data := Some 0\<rparr>) \<and>
   get_search_data ex_h3 (ex_nu\<lparr>search_data := Some 0\<rparr>) = Inr ex_sd"
proof -
  from mask_removes_transit [OF ex_mask ex_get_session1 ex_get_search_data1]
  obtain nu' where
    g: "get_session ex_h3 (length (sessions ex_h1)) = Inr nu'" and
    t: "time nu' = nths (time (ex_nu\<lparr>search_data := Some 0\<rparr>))
          (far_indices (phase ex_env (time (ex_nu\<lparr>search_data := Some 0\<rparr>)) (Fin 1) (Fin 10))
             (Fin (1 / 4)))" and
    o: "get_session ex_h3 0 = Inr (ex_nu\<lparr>search_data := Some 0\<rparr>)"
       "get_search_data ex_h3 (ex_nu\<lparr>search_data := Some 0\<rparr>) = Inr ex_sd"
    by blast
  have l: "length (sessions ex_h1) = 1" by (simp add: ex_h1_def)
  have tm: "time (ex_nu\<lparr>search_data := Some 0\<rparr>) = [Fin 0, Fin 1, Fin 2]"
    by (simp add: ex_nu_def)
  from g l ex_get_session3 have nu': "nu' = ex_masked" by simp
  have t2: "time ex_masked = [Fin 0, Fin 2]"
    by (simp add: ex_masked_def compute_L_fields)
  from g t o l tm nu' t2 ex_mask ex_get_session1 ex_get_search_data1 show ?thesis
    by auto
qed

end
